theory Spec2Isabelle
  imports Complex_Main "HOL-Library.Word"
begin

section \<open>Python values used by the conversion-rate engine\<close>

text \<open>
  Exceptions are values. \<open>Exception\<close> carries the message the source formats;
  \<open>ContractNotFoundException\<close> is the one exception class the source declares
  (service/calculation.py, line 19). The others are the built-in exceptions that the
  modelled statements can raise, \<open>ClientError\<close> is a failed HTTP transport and
  \<open>ResponseError\<close> a response body that is not JSON or has no result of the
  expected shape.
\<close>

datatype exn =
    Exception string
  | ContractNotFoundException string
  | ZeroDivisionError
  | OverflowError
  | ValueError
  | KeyError
  | IndexError
  | ClientError
  | ResponseError
  | NoEdgeBetweenNodes

text \<open>
  A Python float is kept as the rational number it stands for: the rounding of the
  mantissa of a double is not modelled. The ratios of the swaps and of the walk along
  the path are taken to stay within the range of doubles; in the decimal scaling, where
  the powers of ten leave that range, overflow, underflow and the exceptions of float
  arithmetic are modelled (see \<open>scale_by_decimals\<close>). Python's unbounded integers are
  \<open>int\<close>.
\<close>

type_synonym pyfloat = rat

text \<open>\<open>str.lower()\<close> on ASCII text (addresses are hexadecimal strings).\<close>

definition lower_char :: "char \<Rightarrow> char" where
  "lower_char c =
     (let n = (of_char c :: nat) in if 65 \<le> n \<and> n \<le> 90 then char_of (n + 32) else c)"

definition lower :: "string \<Rightarrow> string" where
  "lower s = map lower_char s"

text \<open>
  Iterating a Python set (\<open>enumerate(token_addresses)\<close>, \<open>list(set(...))\<close>) yields
  every element once, in an order the language does not fix. The model takes the
  iteration as a function from the list of inserted elements to the list of iterated
  ones; \<open>set_iteration\<close> says that it is an iteration of that set.
\<close>

definition set_iteration :: "('a list \<Rightarrow> 'a list) \<Rightarrow> bool" where
  "set_iteration it \<longleftrightarrow> (\<forall>xs. distinct (it xs) \<and> set (it xs) = set xs)"

text \<open>
  What the Python runtime decides and the source does not: the iteration order of a set
  of strings and of a set of paths, and \<open>bytes.decode()\<close>, the UTF-8 decoder
  (\<open>None\<close> where it raises \<open>UnicodeDecodeError\<close>).
\<close>

record runtime =
  iter_strs :: "string list \<Rightarrow> string list"
  iter_paths :: "nat list list \<Rightarrow> nat list list"
  decode :: "nat list \<Rightarrow> string option"

definition valid_runtime :: "runtime \<Rightarrow> bool" where
  "valid_runtime rt \<longleftrightarrow> set_iteration (iter_strs rt) \<and> set_iteration (iter_paths rt)"

section \<open>Swap events (service/calculation.py, lines 90-109)\<close>

record SwapEvent =
  block_number :: int
  transaction_hash :: string
  log_index :: int
  address :: string
  from_token :: string
  to_token :: string
  from_amount :: int
  to_amount :: int

text \<open>The property \<open>ratio\<close>: \<open>to_amount / from_amount\<close>, true division.\<close>

definition ratio :: "SwapEvent \<Rightarrow> exn + pyfloat" where
  "ratio s =
     (if from_amount s = 0 then Inl ZeroDivisionError
      else Inr (of_int (to_amount s) / of_int (from_amount s)))"

section \<open>The graph library (rustworkx)\<close>

text \<open>
  Modelled from the spec: the undirected multigraph \<open>rx.PyGraph()\<close> is library code.
  Node indices are handed out in order of insertion and edges are kept in order of
  insertion, each with its endpoints as given to \<open>add_edge\<close> and its payload; parallel
  edges are kept.
\<close>

record 'e PyGraph =
  nodes :: "nat list"
  edges :: "(nat \<times> nat \<times> 'e) list"

definition empty_graph :: "'e PyGraph" where
  "empty_graph = \<lparr>nodes = [], edges = []\<rparr>"

definition add_node :: "'e PyGraph \<Rightarrow> nat \<Rightarrow> 'e PyGraph" where
  "add_node g payload = g\<lparr>nodes := nodes g @ [payload]\<rparr>"

definition add_edge :: "'e PyGraph \<Rightarrow> nat \<Rightarrow> nat \<Rightarrow> 'e \<Rightarrow> 'e PyGraph" where
  "add_edge g a b w = g\<lparr>edges := edges g @ [(a, b, w)]\<rparr>"

text \<open>
  Modelled from the spec: \<open>graph.get_edge_data(a, b)\<close> is library code. It returns the
  payload of an edge joining \<open>a\<close> and \<open>b\<close> and raises \<open>NoEdgeBetweenNodes\<close> when there
  is none. Among parallel edges the library's adjacency lists decide: the edges
  stored from \<open>a\<close> to \<open>b\<close> come first, then those stored from \<open>b\<close> to \<open>a\<close>, the most
  recently added first.
\<close>

definition get_edge_data :: "'e PyGraph \<Rightarrow> nat \<Rightarrow> nat \<Rightarrow> exn + 'e" where
  "get_edge_data g a b =
     (case filter (\<lambda>(x, y, w). x = a \<and> y = b) (rev (edges g)) @
           filter (\<lambda>(x, y, w). y = a \<and> x = b) (rev (edges g)) of
        [] \<Rightarrow> Inl NoEdgeBetweenNodes
      | (x, y, w) # _ \<Rightarrow> Inr w)"

text \<open>
  Modelled from the spec: \<open>rx.graph_all_shortest_paths(graph, source, target)\<close> is
  library code; the spec describes it as the set of all shortest paths (minimum
  edge-hop count) between source and target, each a node sequence from source to
  target. The model searches breadth first: level \<open>k\<close> holds every path of \<open>k\<close> edges
  from the source that repeats no node, and the first level that reaches the target
  is the answer. Paths are kept reversed while they grow. Two parallel edges give the
  same node sequence twice, as in the library. For a source equal to the target, a case
  the spec does not describe, the library returns no path at all.
\<close>

definition neighbors :: "'e PyGraph \<Rightarrow> nat \<Rightarrow> nat list" where
  "neighbors g u =
     concat (map (\<lambda>(a, b, w). (if a = u then [b] else []) @ (if b = u then [a] else []))
       (edges g))"

definition extend_path :: "'e PyGraph \<Rightarrow> nat list \<Rightarrow> nat list list" where
  "extend_path g p =
     (case p of [] \<Rightarrow> []
      | u # _ \<Rightarrow> map (\<lambda>v. v # p) (filter (\<lambda>v. v \<notin> set p) (neighbors g u)))"

definition ends_at :: "nat \<Rightarrow> nat list \<Rightarrow> bool" where
  "ends_at t p = (case p of [] \<Rightarrow> False | u # _ \<Rightarrow> u = t)"

fun search :: "nat \<Rightarrow> 'e PyGraph \<Rightarrow> nat \<Rightarrow> nat list list \<Rightarrow> nat list list" where
  "search 0 g t ps = []"
| "search (Suc n) g t ps =
     (let found = filter (ends_at t) ps
      in if found \<noteq> [] then map rev found
         else search n g t (concat (map (extend_path g) ps)))"

definition graph_all_shortest_paths :: "'e PyGraph \<Rightarrow> nat \<Rightarrow> nat \<Rightarrow> nat list list" where
  "graph_all_shortest_paths g source target =
     (if source = target then [] else search (length (nodes g)) g target [[source]])"

section \<open>Path selection and ratio aggregation (service/calculation.py, lines 190-239)\<close>

text \<open>
  \<open>token_addresses\<close> is the set of the tokens of all swaps, filled in the order of the
  swaps, as the runtime iterates it.
\<close>

definition token_addresses :: "runtime \<Rightarrow> SwapEvent list \<Rightarrow> string list" where
  "token_addresses rt swaps = iter_strs rt (concat (map (\<lambda>s. [from_token s, to_token s]) swaps))"

text \<open>
  \<open>token_id_map\<close> numbers the tokens by \<open>enumerate\<close> and \<open>token_id_map_inv\<close> maps the
  numbers back; \<open>toks\<close> is the iteration of the set, so it holds every token once.
\<close>

definition token_id_map :: "string list \<Rightarrow> string \<rightharpoonup> nat" where
  "token_id_map toks = map_of (zip toks [0..<length toks])"

definition token_id_map_inv :: "string list \<Rightarrow> nat \<rightharpoonup> string" where
  "token_id_map_inv toks = map_of (zip [0..<length toks] toks)"

text \<open>
  The graph (lines 200-209): one node per key of \<open>token_id_map\<close>, in the order of the
  dictionary, whose payload is the token's id, and one edge per swap.
  \<open>token_id_map[...]\<close> raises \<open>KeyError\<close> on a missing key.
\<close>

fun add_nodes :: "string list \<Rightarrow> string list \<Rightarrow> SwapEvent PyGraph \<Rightarrow> exn + SwapEvent PyGraph" where
  "add_nodes toks [] g = Inr g"
| "add_nodes toks (key # keys) g =
     (case token_id_map toks key of
        None \<Rightarrow> Inl KeyError
      | Some token_id \<Rightarrow> add_nodes toks keys (add_node g token_id))"

fun add_swaps :: "string list \<Rightarrow> SwapEvent list \<Rightarrow> SwapEvent PyGraph \<Rightarrow> exn + SwapEvent PyGraph" where
  "add_swaps toks [] g = Inr g"
| "add_swaps toks (swap # swaps) g =
     (case token_id_map toks (from_token swap) of
        None \<Rightarrow> Inl KeyError
      | Some from_token_id \<Rightarrow>
          (case token_id_map toks (to_token swap) of
             None \<Rightarrow> Inl KeyError
           | Some to_token_id \<Rightarrow>
               add_swaps toks swaps (add_edge g from_token_id to_token_id swap)))"

definition build_graph :: "string list \<Rightarrow> SwapEvent list \<Rightarrow> exn + SwapEvent PyGraph" where
  "build_graph toks swaps =
     (case add_nodes toks toks empty_graph of
        Inl e \<Rightarrow> Inl e
      | Inr graph \<Rightarrow> add_swaps toks swaps graph)"

text \<open>
  One round of the loop over the path (lines 232-239): the edge's swap, its ratio
  (formatted by the \<open>print\<close>, so a zero \<open>from_amount\<close> raises here), then the two
  direction tests. \<open>token_id_map_inv[...]\<close> is looked up only where Python's
  short-circuit \<open>and\<close> gets to it.
\<close>

definition inv_lookup :: "(nat \<rightharpoonup> string) \<Rightarrow> nat \<Rightarrow> exn + string" where
  "inv_lookup tinv i = (case tinv i of None \<Rightarrow> Inl KeyError | Some t \<Rightarrow> Inr t)"

definition tokens_match :: "(nat \<rightharpoonup> string) \<Rightarrow> string \<Rightarrow> nat \<Rightarrow> string \<Rightarrow> nat \<Rightarrow> exn + bool" where
  "tokens_match tinv x i y j =
     (case inv_lookup tinv i of
        Inl e \<Rightarrow> Inl e
      | Inr ti \<Rightarrow>
          if x \<noteq> ti then Inr False
          else (case inv_lookup tinv j of Inl e \<Rightarrow> Inl e | Inr tj \<Rightarrow> Inr (y = tj)))"

definition ratio_step ::
  "SwapEvent PyGraph \<Rightarrow> (nat \<rightharpoonup> string) \<Rightarrow> nat \<Rightarrow> nat \<Rightarrow> pyfloat \<Rightarrow> exn + pyfloat" where
  "ratio_step graph tinv u v total_ratio =
     (case get_edge_data graph u v of
        Inl e \<Rightarrow> Inl e
      | Inr swap \<Rightarrow>
          (case ratio swap of
             Inl e \<Rightarrow> Inl e
           | Inr r \<Rightarrow>
               (case tokens_match tinv (from_token swap) u (to_token swap) v of
                  Inl e \<Rightarrow> Inl e
                | Inr True \<Rightarrow> Inr (total_ratio * r)
                | Inr False \<Rightarrow>
                    (case tokens_match tinv (to_token swap) u (from_token swap) v of
                       Inl e \<Rightarrow> Inl e
                     | Inr True \<Rightarrow>
                         if r = 0 then Inl ZeroDivisionError else Inr (total_ratio / r)
                     | Inr False \<Rightarrow> Inr total_ratio))))"

fun walk_path ::
  "SwapEvent PyGraph \<Rightarrow> (nat \<rightharpoonup> string) \<Rightarrow> nat list \<Rightarrow> pyfloat \<Rightarrow> exn + pyfloat" where
  "walk_path graph tinv (u # v # rest) total_ratio =
     (case ratio_step graph tinv u v total_ratio of
        Inl e \<Rightarrow> Inl e
      | Inr total_ratio' \<Rightarrow> walk_path graph tinv (v # rest) total_ratio')"
| "walk_path graph tinv path total_ratio = Inr total_ratio"

fun path_tokens :: "(nat \<rightharpoonup> string) \<Rightarrow> nat list \<Rightarrow> exn + string list" where
  "path_tokens tinv [] = Inr []"
| "path_tokens tinv (token_id # path) =
     (case inv_lookup tinv token_id of
        Inl e \<Rightarrow> Inl e
      | Inr t \<Rightarrow> (case path_tokens tinv path of Inl e \<Rightarrow> Inl e | Inr ts \<Rightarrow> Inr (t # ts)))"

text \<open>The messages of the three \<open>raise Exception(...)\<close> statements (lines 213, 216, 228).\<close>

definition token0_not_found :: "string \<Rightarrow> exn" where
  "token0_not_found token0 = Exception (''Token0 '' @ token0 @ '' not found in swap events'')"

definition token1_not_found :: "string \<Rightarrow> exn" where
  "token1_not_found token1 = Exception (''Token '' @ token1 @ '' not found in swap events'')"

definition no_swap_path :: "string \<Rightarrow> string \<Rightarrow> exn" where
  "no_swap_path token0 token1 =
     Exception (''No swap path found between token0 '' @ token0 @ '' and token1 '' @ token1 @
       '', unable to calculate conversion rate.'')"

text \<open>
  Lines 190-239 of \<open>get_token_conversion_rate\<close>: from the swaps of the block window
  to the chosen path (as node ids) and the aggregated ratio.
\<close>

definition select_path ::
  "runtime \<Rightarrow> SwapEvent list \<Rightarrow> string \<Rightarrow> string \<Rightarrow> exn + (pyfloat \<times> nat list)" where
  "select_path rt swaps token0 token1 =
     (let toks = token_addresses rt swaps;
          tinv = token_id_map_inv toks
      in case build_graph toks swaps of
           Inl e \<Rightarrow> Inl e
         | Inr graph \<Rightarrow>
             (case token_id_map toks token0 of
                None \<Rightarrow> Inl (token0_not_found token0)
              | Some from_token_id \<Rightarrow>
                  (case token_id_map toks token1 of
                     None \<Rightarrow> Inl (token1_not_found token1)
                   | Some to_token_id \<Rightarrow>
                       (case iter_paths rt (graph_all_shortest_paths graph from_token_id to_token_id) of
                          [] \<Rightarrow> Inl (no_swap_path token0 token1)
                        | path # _ \<Rightarrow>
                            (case walk_path graph tinv path 1 of
                               Inl e \<Rightarrow> Inl e
                             | Inr total_ratio \<Rightarrow> Inr (total_ratio, path))))))"

section \<open>Text and number conversions of the Python library\<close>

definition hexval :: "char \<Rightarrow> nat option" where
  "hexval c =
     (let n = (of_char c :: nat)
      in if 48 \<le> n \<and> n \<le> 57 then Some (n - 48)
         else if 97 \<le> n \<and> n \<le> 102 then Some (n - 87)
         else if 65 \<le> n \<and> n \<le> 70 then Some (n - 55)
         else None)"

text \<open>
  \<open>int(s, 16)\<close>: surrounding whitespace, a sign, the prefix \<open>0x\<close> and single
  underscores between digits are accepted; anything else raises \<open>ValueError\<close>
  (\<open>None\<close>). A character stands for the code point of its number. The blanks that
  \<open>int\<close> skips are the ASCII ones (tab to carriage return, and the space) and the
  blanks beyond ASCII, of which the code points below 256 have two (133 and 160); the
  separators 28 to 31 are not skipped.
\<close>

definition is_space :: "char \<Rightarrow> bool" where
  "is_space c =
     (let n = (of_char c :: nat) in (9 \<le> n \<and> n \<le> 13) \<or> n = 32 \<or> n = 133 \<or> n = 160)"

definition strip :: "string \<Rightarrow> string" where
  "strip s = rev (dropWhile is_space (rev (dropWhile is_space s)))"

fun hex_digits :: "string \<Rightarrow> nat list option" where
  "hex_digits [] = None"
| "hex_digits [c] = map_option (\<lambda>a. [a]) (hexval c)"
| "hex_digits (c # d # cs) =
     (case hexval c of
        None \<Rightarrow> None
      | Some a \<Rightarrow>
          if d = CHR ''_'' then map_option (Cons a) (hex_digits cs)
          else map_option (Cons a) (hex_digits (d # cs)))"

definition int16 :: "string \<Rightarrow> int option" where
  "int16 s =
     (let t = strip s;
          (neg, u) =
            (case t of
               [] \<Rightarrow> (False, [])
             | c # r \<Rightarrow>
                 if c = CHR ''-'' then (True, r) else if c = CHR ''+'' then (False, r)
                 else (False, t));
          v =
            (case u of
               c # x # r \<Rightarrow>
                 if c = CHR ''0'' \<and> (x = CHR ''x'' \<or> x = CHR ''X'')
                 then (case r of [] \<Rightarrow> [] | y # r' \<Rightarrow> if y = CHR ''_'' then r' else r)
                 else u
             | _ \<Rightarrow> u)
      in map_option
           (\<lambda>ds. (if neg then - 1 else 1) * int (foldl (\<lambda>a d. 16 * a + d) 0 ds))
           (hex_digits v))"

text \<open>
  \<open>bytes.fromhex(s)\<close>: pairs of hexadecimal digits, ASCII whitespace between pairs
  skipped; \<open>None\<close> where it raises \<open>ValueError\<close>.
\<close>

definition is_ascii_space :: "char \<Rightarrow> bool" where
  "is_ascii_space c = (let n = (of_char c :: nat) in (9 \<le> n \<and> n \<le> 13) \<or> n = 32)"

fun fromhex :: "string \<Rightarrow> nat list option" where
  "fromhex [] = Some []"
| "fromhex [c] = (if is_ascii_space c then Some [] else None)"
| "fromhex (c # d # cs) =
     (if is_ascii_space c then fromhex (d # cs)
      else (case (hexval c, hexval d) of
              (Some a, Some b) \<Rightarrow> map_option (Cons (16 * a + b)) (fromhex cs)
            | _ \<Rightarrow> None))"

text \<open>
  \<open>int.from_bytes(bs, signed=True)\<close>, big-endian: two's complement over the
  \<open>8 * len(bs)\<close> bits given.
\<close>

definition from_bytes_unsigned :: "nat list \<Rightarrow> int" where
  "from_bytes_unsigned bs = foldl (\<lambda>a b. 256 * a + int b) 0 bs"

definition from_bytes_signed :: "nat list \<Rightarrow> int" where
  "from_bytes_signed bs =
     (let n = from_bytes_unsigned bs; bits = 8 * length bs
      in if bs \<noteq> [] \<and> 2 ^ (bits - 1) \<le> n then n - 2 ^ bits else n)"

text \<open>The slice \<open>s[i:j]\<close> for \<open>0 \<le> i \<le> j\<close>.\<close>

definition slice :: "'a list \<Rightarrow> nat \<Rightarrow> nat \<Rightarrow> 'a list" where
  "slice s i j = take (j - i) (drop i s)"

text \<open>\<open>str(n)\<close> for an integer.\<close>

fun str_nat :: "nat \<Rightarrow> string" where
  "str_nat n =
     (if n < 10 then [char_of (48 + n)] else str_nat (n div 10) @ [char_of (48 + n mod 10)])"

definition str_int :: "int \<Rightarrow> string" where
  "str_int i = (if i < 0 then CHR ''-'' # str_nat (nat (- i)) else str_nat (nat i))"

section \<open>The chain client (core/node.py)\<close>

text \<open>
  One HTTP exchange with the node either fails in transport (\<open>session.post\<close> raises)
  or answers with a status and a body; the body is \<open>Some r\<close> when it is JSON whose
  \<open>result\<close> has the shape the call expects and \<open>None\<close> when reading it raises. The
  chain gives, for every request, the answer to its first, second, ... attempt.
\<close>

datatype 'a response = TransportError | Http nat "'a option"

record raw_log =
  log_address :: string
  log_blockNumber :: string
  log_transactionHash :: string
  log_logIndex :: string
  log_data :: string

record chain =
  eth_call :: "string \<Rightarrow> string \<Rightarrow> nat \<Rightarrow> string response"
  eth_getLogs :: "int \<Rightarrow> int \<Rightarrow> nat \<Rightarrow> raw_log list response"

text \<open>
  The \<open>while True\<close> loops. Each takes the answers \<open>net\<close> to its request, the number
  \<open>i\<close> of the attempt and the seconds slept so far, and returns the outcome with the
  seconds slept; a loop that never returns is \<open>None\<close>.

  \<open>get_single_pool_token_async\<close> (lines 46-61): status 429 sleeps a second; 200
  returns; every other path reaches the \<open>raise\<close>, which the loop's own
  \<open>except Exception\<close> catches, sleeps a second and goes round again.
\<close>

partial_function (option) pool_token_loop ::
  "(nat \<Rightarrow> string response) \<Rightarrow> nat \<Rightarrow> nat \<Rightarrow> ((exn + string) \<times> nat) option" where
  "pool_token_loop net i slept =
     (case net i of
        TransportError \<Rightarrow> pool_token_loop net (i + 1) (slept + 1)
      | Http status body \<Rightarrow>
          (let slept' = (if status = 429 then slept + 1 else slept)
           in if status = 200 then
                (case body of
                   None \<Rightarrow> pool_token_loop net (i + 1) (slept' + 1)
                 | Some result \<Rightarrow> Some (Inr (''0x'' @ slice result 26 66), slept'))
              else pool_token_loop net (i + 1) (slept' + 1)))"

definition get_single_pool_token_async ::
  "chain \<Rightarrow> string \<Rightarrow> int \<Rightarrow> ((exn + string) \<times> nat) option" where
  "get_single_pool_token_async ch pool_address token =
     (if token = 0 then pool_token_loop (eth_call ch pool_address ''0x0dfe1681'') 0 0
      else if token = 1 then pool_token_loop (eth_call ch pool_address ''0xd21220a7'') 0 0
      else Some (Inl (Exception (''Invalid token index: '' @ str_int token @ '' - must be 0 or 1'')), 0))"

text \<open>
  \<open>get_pool_tokens_async\<close> (lines 63-77): both tokens are fetched with
  \<open>asyncio.gather\<close>, which returns when both calls have returned and raises the
  first exception otherwise.
\<close>

definition fetch_pool_tokens :: "chain \<Rightarrow> string \<Rightarrow> (exn + string list) option" where
  "fetch_pool_tokens ch pool_address =
     (case get_single_pool_token_async ch pool_address 0 of
        None \<Rightarrow> None
      | Some (Inl e, _) \<Rightarrow> Some (Inl e)
      | Some (Inr token0, _) \<Rightarrow>
          (case get_single_pool_token_async ch pool_address 1 of
             None \<Rightarrow> None
           | Some (Inl e, _) \<Rightarrow> Some (Inl e)
           | Some (Inr token1, _) \<Rightarrow> Some (Inr [token0, token1])))"

text \<open>
  \<open>get_raw_swap_logs\<close> (lines 107-124): status 200 returns the logs; any other
  status sleeps a second and goes round again; an exception is re-raised by
  \<open>raise e\<close>, the statements after it are never reached.
\<close>

partial_function (option) raw_swap_logs_loop ::
  "(nat \<Rightarrow> raw_log list response) \<Rightarrow> nat \<Rightarrow> nat \<Rightarrow> ((exn + raw_log list) \<times> nat) option" where
  "raw_swap_logs_loop net i slept =
     (case net i of
        TransportError \<Rightarrow> Some (Inl ClientError, slept)
      | Http status body \<Rightarrow>
          if status = 200 then
            (case body of
               None \<Rightarrow> Some (Inl ResponseError, slept)
             | Some logs \<Rightarrow> Some (Inr logs, slept))
          else raw_swap_logs_loop net (i + 1) (slept + 1))"

definition get_raw_swap_logs ::
  "chain \<Rightarrow> int \<Rightarrow> int \<Rightarrow> ((exn + raw_log list) \<times> nat) option" where
  "get_raw_swap_logs ch from_block to_block =
     raw_swap_logs_loop (eth_getLogs ch from_block to_block) 0 0"

text \<open>
  \<open>get_token_decimals\<close> (lines 148-162): status 200 returns
  \<open>int(result, 16)\<close>; any other status sleeps a second and goes round again; an
  exception (transport, body, \<open>int\<close>) is caught, sleeps a second and goes round again.
\<close>

partial_function (option) token_decimals_loop ::
  "(nat \<Rightarrow> string response) \<Rightarrow> nat \<Rightarrow> nat \<Rightarrow> ((exn + int) \<times> nat) option" where
  "token_decimals_loop net i slept =
     (case net i of
        TransportError \<Rightarrow> token_decimals_loop net (i + 1) (slept + 1)
      | Http status body \<Rightarrow>
          if status = 200 then
            (case body of
               None \<Rightarrow> token_decimals_loop net (i + 1) (slept + 1)
             | Some result \<Rightarrow>
                 (case int16 result of
                    None \<Rightarrow> token_decimals_loop net (i + 1) (slept + 1)
                  | Some decimals \<Rightarrow> Some (Inr decimals, slept)))
          else token_decimals_loop net (i + 1) (slept + 1))"

definition fetch_token_decimals :: "chain \<Rightarrow> string \<Rightarrow> ((exn + int) \<times> nat) option" where
  "fetch_token_decimals ch token_address =
     token_decimals_loop (eth_call ch token_address ''0x313ce567'') 0 0"

text \<open>
  \<open>get_token_symbol\<close> (lines 183-197): as for the decimals, with
  \<open>bytes.fromhex(symbol[2:]).decode()\<close>.
\<close>

partial_function (option) token_symbol_loop ::
  "runtime \<Rightarrow> (nat \<Rightarrow> string response) \<Rightarrow> nat \<Rightarrow> nat \<Rightarrow> ((exn + string) \<times> nat) option" where
  "token_symbol_loop rt net i slept =
     (case net i of
        TransportError \<Rightarrow> token_symbol_loop rt net (i + 1) (slept + 1)
      | Http status body \<Rightarrow>
          if status = 200 then
            (case body of
               None \<Rightarrow> token_symbol_loop rt net (i + 1) (slept + 1)
             | Some symbol \<Rightarrow>
                 (case fromhex (drop 2 symbol) of
                    None \<Rightarrow> token_symbol_loop rt net (i + 1) (slept + 1)
                  | Some bs \<Rightarrow>
                      (case decode rt bs of
                         None \<Rightarrow> token_symbol_loop rt net (i + 1) (slept + 1)
                       | Some text \<Rightarrow> Some (Inr text, slept))))
          else token_symbol_loop rt net (i + 1) (slept + 1))"

definition fetch_token_symbol :: "runtime \<Rightarrow> chain \<Rightarrow> string \<Rightarrow> ((exn + string) \<times> nat) option" where
  "fetch_token_symbol rt ch token_address =
     token_symbol_loop rt (eth_call ch token_address ''0x95d89b41'') 0 0"

section \<open>The metadata cache (service/cache.py)\<close>

text \<open>
  The three Redis databases the functions of the module read and write (the name
  \<open>token_decimals_db\<close> is bound last to database 3, which both decimals functions
  use). A decimals entry is written as the integer's decimal text and read back with
  \<open>int\<close>; the model keeps the integer. \<open>fetch_log\<close> is not in the source: it
  records each fetch the resolvers send to the chain client, so that fetches can be
  counted.
\<close>

record world =
  pool_address_redis :: "string \<rightharpoonup> string"
  token_decimals_db :: "string \<rightharpoonup> int"
  token_symbols_db :: "string \<rightharpoonup> string"
  fetch_log :: "(string \<times> string) list"

fun split_comma :: "string \<Rightarrow> string list" where
  "split_comma [] = [[]]"
| "split_comma (c # cs) =
     (if c = CHR '','' then [] # split_comma cs
      else (case split_comma cs of [] \<Rightarrow> [[c]] | p # ps \<Rightarrow> (c # p) # ps))"

definition set_pool_pair :: "world \<Rightarrow> string \<Rightarrow> string list \<Rightarrow> exn + world" where
  "set_pool_pair w pool_address tokens =
     (case tokens of
        t0 # t1 # _ \<Rightarrow>
          Inr (w\<lparr>pool_address_redis := (pool_address_redis w)(pool_address \<mapsto> t0 @ '','' @ t1)\<rparr>)
      | _ \<Rightarrow> Inl IndexError)"

definition get_pool_pair :: "world \<Rightarrow> string \<Rightarrow> string list option" where
  "get_pool_pair w pool_address = map_option split_comma (pool_address_redis w pool_address)"

definition set_cached_token_decimals :: "world \<Rightarrow> string \<Rightarrow> int \<Rightarrow> world" where
  "set_cached_token_decimals w token_address decimals =
     w\<lparr>token_decimals_db := (token_decimals_db w)(token_address \<mapsto> decimals)\<rparr>"

definition get_cached_token_decimals :: "world \<Rightarrow> string \<Rightarrow> int option" where
  "get_cached_token_decimals w token_address = token_decimals_db w token_address"

definition set_cached_token_symbol :: "world \<Rightarrow> string \<Rightarrow> string \<Rightarrow> world" where
  "set_cached_token_symbol w token_address symbol =
     w\<lparr>token_symbols_db := (token_symbols_db w)(token_address \<mapsto> symbol)\<rparr>"

definition get_cached_token_symbol :: "world \<Rightarrow> string \<Rightarrow> string option" where
  "get_cached_token_symbol w token_address = token_symbols_db w token_address"

section \<open>The cache fetchers (service/calculation.py, lines 21-85)\<close>

definition log_fetch :: "world \<Rightarrow> string \<Rightarrow> string \<Rightarrow> world" where
  "log_fetch w fetcher addr = w\<lparr>fetch_log := fetch_log w @ [(fetcher, addr)]\<rparr>"

definition get_token_decimals ::
  "chain \<Rightarrow> world \<Rightarrow> string \<Rightarrow> ((exn + int) \<times> world) option" where
  "get_token_decimals ch w token_address =
     (case get_cached_token_decimals w token_address of
        Some decimals \<Rightarrow>
          Some (Inr decimals, set_cached_token_decimals w token_address decimals)
      | None \<Rightarrow>
          (let w' = log_fetch w ''fetch_token_decimals'' token_address
           in case fetch_token_decimals ch token_address of
                None \<Rightarrow> None
              | Some (Inl e, _) \<Rightarrow>
                  Some (Inl (ContractNotFoundException
                               (''Token contract not found: '' @ token_address)), w')
              | Some (Inr decimals, _) \<Rightarrow>
                  Some (Inr decimals, set_cached_token_decimals w' token_address decimals)))"

definition get_token_symbol ::
  "runtime \<Rightarrow> chain \<Rightarrow> world \<Rightarrow> string \<Rightarrow> ((exn + string) \<times> world) option" where
  "get_token_symbol rt ch w token_address =
     (case get_cached_token_symbol w token_address of
        Some symbol \<Rightarrow> Some (Inr symbol, set_cached_token_symbol w token_address symbol)
      | None \<Rightarrow>
          (let w' = log_fetch w ''fetch_token_symbol'' token_address
           in case fetch_token_symbol rt ch token_address of
                None \<Rightarrow> None
              | Some (Inl e, _) \<Rightarrow>
                  Some (Inl (ContractNotFoundException
                               (''Token contract not found: '' @ token_address)), w')
              | Some (Inr symbol, _) \<Rightarrow>
                  Some (Inr symbol, set_cached_token_symbol w' token_address symbol)))"

text \<open>
  \<open>get_pool_tokens\<close> (lines 64-85): the handler's first statement is \<open>raise e\<close>, so
  the exception of the fetch leaves as it is and the \<open>raise ContractNotFoundException\<close>
  after it is never reached.
\<close>

definition store_pool_pair ::
  "world \<Rightarrow> string \<Rightarrow> string list \<Rightarrow> ((exn + string list) \<times> world) option" where
  "store_pool_pair w pool_address tokens =
     (case set_pool_pair w pool_address tokens of
        Inl e \<Rightarrow> Some (Inl e, w)
      | Inr w' \<Rightarrow> Some (Inr tokens, w'))"

definition get_pool_tokens ::
  "chain \<Rightarrow> world \<Rightarrow> string \<Rightarrow> ((exn + string list) \<times> world) option" where
  "get_pool_tokens ch w pool_address =
     (case get_pool_pair w pool_address of
        Some tokens \<Rightarrow> store_pool_pair w pool_address tokens
      | None \<Rightarrow>
          (let w' = log_fetch w ''fetch_pool_tokens'' pool_address
           in case fetch_pool_tokens ch pool_address of
                None \<Rightarrow> None
              | Some (Inl e) \<Rightarrow> Some (Inl e, w')
              | Some (Inr tokens) \<Rightarrow> store_pool_pair w' pool_address tokens))"

section \<open>Swap ingestion (service/calculation.py, lines 111-149)\<close>

definition parse_amount :: "string \<Rightarrow> nat \<Rightarrow> nat \<Rightarrow> exn + int" where
  "parse_amount data i j =
     (case fromhex (slice data i j) of
        None \<Rightarrow> Inl ValueError
      | Some bs \<Rightarrow> Inr \<bar>from_bytes_signed bs\<bar>)"

text \<open>
  The body of the loop over the logs (lines 133-147). Unpacking
  \<open>from_token, to_token = pool_tokens[pool_address]\<close> raises \<open>ValueError\<close> unless the
  tuple has two elements.
\<close>

definition parse_log :: "(string \<rightharpoonup> string list) \<Rightarrow> raw_log \<Rightarrow> exn + SwapEvent" where
  "parse_log pool_tokens entry =
     (case pool_tokens (log_address entry) of
        None \<Rightarrow> Inl KeyError
      | Some tokens \<Rightarrow>
          (case tokens of
             [from_tok, to_tok] \<Rightarrow>
               (case int16 (log_blockNumber entry) of
                  None \<Rightarrow> Inl ValueError
                | Some bn \<Rightarrow>
                    (case int16 (log_logIndex entry) of
                       None \<Rightarrow> Inl ValueError
                     | Some li \<Rightarrow>
                         (case parse_amount (log_data entry) 2 66 of
                            Inl e \<Rightarrow> Inl e
                          | Inr a0 \<Rightarrow>
                              (case parse_amount (log_data entry) 66 130 of
                                 Inl e \<Rightarrow> Inl e
                               | Inr a1 \<Rightarrow>
                                   Inr \<lparr>block_number = bn,
                                        transaction_hash = log_transactionHash entry,
                                        log_index = li,
                                        address = lower (log_address entry),
                                        from_token = lower from_tok,
                                        to_token = lower to_tok,
                                        from_amount = a0,
                                        to_amount = a1\<rparr>))))
           | _ \<Rightarrow> Inl ValueError))"

fun parse_logs :: "(string \<rightharpoonup> string list) \<Rightarrow> raw_log list \<Rightarrow> exn + SwapEvent list" where
  "parse_logs pool_tokens [] = Inr []"
| "parse_logs pool_tokens (entry # logs) =
     (case parse_log pool_tokens entry of
        Inl e \<Rightarrow> Inl e
      | Inr swap \<Rightarrow>
          (case parse_logs pool_tokens logs of
             Inl e \<Rightarrow> Inl e
           | Inr swaps \<Rightarrow> Inr (swap # swaps)))"

text \<open>
  \<open>asyncio.gather\<close> over the distinct pools (line 126). The pools are resolved here
  one after the other, in the order of the list; each resolution touches only its own
  pool's cache entry.
\<close>

fun gather_pool_tokens ::
  "chain \<Rightarrow> world \<Rightarrow> string list \<Rightarrow> ((exn + string list list) \<times> world) option" where
  "gather_pool_tokens ch w [] = Some (Inr [], w)"
| "gather_pool_tokens ch w (pool_address # rest) =
     (case get_pool_tokens ch w pool_address of
        None \<Rightarrow> None
      | Some (Inl e, w') \<Rightarrow> Some (Inl e, w')
      | Some (Inr tokens, w') \<Rightarrow>
          (case gather_pool_tokens ch w' rest of
             None \<Rightarrow> None
           | Some (Inl e, w'') \<Rightarrow> Some (Inl e, w'')
           | Some (Inr tokens_lst, w'') \<Rightarrow> Some (Inr (tokens # tokens_lst), w'')))"

definition get_swaps ::
  "runtime \<Rightarrow> chain \<Rightarrow> world \<Rightarrow> int \<Rightarrow> int \<Rightarrow> ((exn + SwapEvent list) \<times> world) option" where
  "get_swaps rt ch w from_block to_block =
     (case get_raw_swap_logs ch from_block to_block of
        None \<Rightarrow> None
      | Some (Inl e, _) \<Rightarrow> Some (Inl e, w)
      | Some (Inr logs, _) \<Rightarrow>
          (let pool_addresses = iter_strs rt (map log_address logs)
           in case gather_pool_tokens ch w pool_addresses of
                None \<Rightarrow> None
              | Some (Inl e, w') \<Rightarrow> Some (Inl e, w')
              | Some (Inr pool_tokens_lst, w') \<Rightarrow>
                  (case parse_logs (map_of (zip pool_addresses pool_tokens_lst)) logs of
                     Inl e \<Rightarrow> Some (Inl e, w')
                   | Inr swaps \<Rightarrow> Some (Inr swaps, w'))))"

section \<open>The conversion (service/calculation.py, lines 154-269)\<close>

text \<open>
  The result of an operation on doubles: a finite double, kept as the rational it
  stands for, or an infinity. An exact result at or beyond \<open>2^1024 - 2^970\<close> rounds to an
  infinity and one at or below \<open>2^-1075\<close> in size rounds to zero; the rounding of the
  mantissa in between is not modelled.
\<close>

datatype double = Double rat | PlusInf | MinusInf

definition double_overflow :: rat where
  "double_overflow = 2 ^ 1024 - 2 ^ 970"

definition round_double :: "rat \<Rightarrow> double" where
  "round_double x =
     (if double_overflow \<le> x then PlusInf
      else if x \<le> - double_overflow then MinusInf
      else if \<bar>x\<bar> \<le> 1 / 2 ^ 1075 then Double 0
      else Double x)"

text \<open>
  An integer operand of a float operation is converted to a float first, which raises
  \<open>OverflowError\<close> when it is too large.
\<close>

definition float_of_int :: "int \<Rightarrow> exn + pyfloat" where
  "float_of_int n =
     (if double_overflow \<le> of_int \<bar>n\<bar> then Inl OverflowError else Inr (of_int n))"

text \<open>
  \<open>10 ** d\<close> as an operand of a float operation: for \<open>d \<ge> 0\<close> the integer \<open>10^d\<close>,
  converted; for \<open>d < 0\<close> the float power of \<open>10.0\<close> and \<open>d\<close> converted, which is
  \<open>0.0\<close> when \<open>10^d\<close> underflows. (For a \<open>d\<close> so large that the integer \<open>10^d\<close> does not
  fit in memory Python fails before the conversion; the model reports the
  \<open>OverflowError\<close> of the conversion there too.)
\<close>

definition pow10 :: "int \<Rightarrow> exn + pyfloat" where
  "pow10 d =
     (if 0 \<le> d then float_of_int (10 ^ nat d)
      else (case float_of_int d of
              Inl e \<Rightarrow> Inl e
            | Inr _ \<Rightarrow>
                if 1 / 10 ^ nat (- d) \<le> (1 / 2 ^ 1075 :: rat) then Inr 0
                else Inr (1 / 10 ^ nat (- d))))"

text \<open>
  Float division: \<open>ZeroDivisionError\<close> on a zero divisor, an infinity stays an
  infinity.
\<close>

definition float_div :: "double \<Rightarrow> pyfloat \<Rightarrow> exn + double" where
  "float_div x y =
     (if y = 0 then Inl ZeroDivisionError
      else (case x of
              Double a \<Rightarrow> Inr (round_double (a / y))
            | PlusInf \<Rightarrow> Inr (if 0 < y then PlusInf else MinusInf)
            | MinusInf \<Rightarrow> Inr (if 0 < y then MinusInf else PlusInf)))"

text \<open>
  Lines 245-246: \<open>total_ratio * (10 ** token0_decimals)\<close>, then the product over
  \<open>10 ** token1_decimals\<close>. \<open>total_ratio\<close> is a float here: the path has at least one
  edge, and every edge of the path multiplies or divides the ratio by a float.
\<close>

definition scale_by_decimals :: "pyfloat \<Rightarrow> int \<Rightarrow> int \<Rightarrow> exn + double" where
  "scale_by_decimals total_ratio token0_decimals token1_decimals =
     (case pow10 token0_decimals of
        Inl e \<Rightarrow> Inl e
      | Inr p0 \<Rightarrow>
          (let product = round_double (total_ratio * p0)
           in case pow10 token1_decimals of
                Inl e \<Rightarrow> Inl e
              | Inr p1 \<Rightarrow> float_div product p1))"

definition parse_symbol :: "string \<Rightarrow> string" where
  "parse_symbol symbol = filter (\<lambda>c. \<not> ((of_char c :: nat) \<le> 9 \<or> c = CHR '' '')) symbol"

record conversion =
  conversion_rate :: double
  token0_decimals :: int
  token1_decimals :: int
  token0_symbol :: string
  token1_symbol :: string
  token_pair_path :: "string list"

text \<open>
  The four metadata calls of lines 179-182 only create coroutines; they run where they
  are awaited, after the path has been walked: the decimals at lines 242-243, before
  the scaling, the symbols while the result is built. The block window is
  \<open>int(block_number - 100.0)\<close> to \<open>int(block_number + 100.0)\<close>.
\<close>

definition get_token_conversion_rate ::
  "runtime \<Rightarrow> chain \<Rightarrow> world \<Rightarrow> string \<Rightarrow> string \<Rightarrow> int \<Rightarrow> ((exn + conversion) \<times> world) option" where
  "get_token_conversion_rate rt ch w token0_arg token1_arg block =
     (let token0 = lower token0_arg; token1 = lower token1_arg
      in case get_swaps rt ch w (block - 100) (block + 100) of
           None \<Rightarrow> None
         | Some (Inl e, w1) \<Rightarrow> Some (Inl e, w1)
         | Some (Inr swaps, w1) \<Rightarrow>
             (case select_path rt swaps token0 token1 of
                Inl e \<Rightarrow> Some (Inl e, w1)
              | Inr (total_ratio, path) \<Rightarrow>
                  (case get_token_decimals ch w1 token0 of
                     None \<Rightarrow> None
                   | Some (Inl e, w2) \<Rightarrow> Some (Inl e, w2)
                   | Some (Inr d0, w2) \<Rightarrow>
                       (case get_token_decimals ch w2 token1 of
                          None \<Rightarrow> None
                        | Some (Inl e, w3) \<Rightarrow> Some (Inl e, w3)
                        | Some (Inr d1, w3) \<Rightarrow>
                            (case scale_by_decimals total_ratio d0 d1 of
                               Inl e \<Rightarrow> Some (Inl e, w3)
                             | Inr rate \<Rightarrow>
                                 (case get_token_symbol rt ch w3 token0 of
                                    None \<Rightarrow> None
                                  | Some (Inl e, w4) \<Rightarrow> Some (Inl e, w4)
                                  | Some (Inr s0, w4) \<Rightarrow>
                                      (case get_token_symbol rt ch w4 token1 of
                                         None \<Rightarrow> None
                                       | Some (Inl e, w5) \<Rightarrow> Some (Inl e, w5)
                                       | Some (Inr s1, w5) \<Rightarrow>
                                           (case path_tokens
                                                   (token_id_map_inv (token_addresses rt swaps))
                                                   path of
                                              Inl e \<Rightarrow> Some (Inl e, w5)
                                            | Inr tokens \<Rightarrow>
                                                Some (Inr \<lparr>conversion_rate = rate,
                                                           token0_decimals = d0,
                                                           token1_decimals = d1,
                                                           token0_symbol = parse_symbol s0,
                                                           token1_symbol = parse_symbol s1,
                                                           token_pair_path = tokens\<rparr>,
                                                      w5)))))))))"

section \<open>Notions used to state the properties\<close>

text \<open>
  A number that a double holds up to the rounding of its mantissa: zero, or of a size in
  the range of the normal doubles.
\<close>

definition in_double_range :: "rat \<Rightarrow> bool" where
  "in_double_range x \<longleftrightarrow> x = 0 \<or> (1 / 2 ^ 1022 \<le> \<bar>x\<bar> \<and> \<bar>x\<bar> < double_overflow)"

text \<open>The tokens that appear among the swaps: the nodes of the swap graph.\<close>

definition swap_tokens :: "SwapEvent list \<Rightarrow> string set" where
  "swap_tokens swaps = set (concat (map (\<lambda>s. [from_token s, to_token s]) swaps))"

text \<open>The id of a token that has one, and the edge \<open>add_edge\<close> stores for a swap.\<close>

definition tid :: "string list \<Rightarrow> string \<Rightarrow> nat" where
  "tid toks t = the (token_id_map toks t)"

definition swap_edge :: "string list \<Rightarrow> SwapEvent \<Rightarrow> nat \<times> nat \<times> SwapEvent" where
  "swap_edge toks s = (tid toks (from_token s), tid toks (to_token s), s)"

text \<open>
  Two tokens are linked when some swap trades one for the other, and connected when a
  chain of links leads from one to the other: they lie in the same connected component
  of the swap graph.
\<close>

definition swap_links :: "SwapEvent list \<Rightarrow> (string \<times> string) set" where
  "swap_links swaps =
     {(from_token s, to_token s) | s. s \<in> set swaps} \<union>
     {(to_token s, from_token s) | s. s \<in> set swaps}"

definition connected :: "SwapEvent list \<Rightarrow> string \<Rightarrow> string \<Rightarrow> bool" where
  "connected swaps a b \<longleftrightarrow> (a, b) \<in> (swap_links swaps)\<^sup>*"

definition graph_links :: "'e PyGraph \<Rightarrow> (nat \<times> nat) set" where
  "graph_links g =
     {(a, b). \<exists>w. (a, b, w) \<in> set (edges g) \<or> (b, a, w) \<in> set (edges g)}"



definition decimals_answer :: "string response \<Rightarrow> bool" where
  "decimals_answer resp =
     (case resp of
        TransportError \<Rightarrow> False
      | Http status body \<Rightarrow>
          status = 200 \<and> (case body of None \<Rightarrow> False | Some result \<Rightarrow> int16 result \<noteq> None))"

section \<open>Example inputs\<close>

text \<open>
  A runtime that iterates a set in the order of last insertion and decodes ASCII bytes,
  an empty cache, and three nodes: one that answers the first attempt of every call
  with status 500 and fails the transport of every log query, one that answers every
  \<open>eth_call\<close> with the empty result \<open>0x\<close> (the address has no code), and one that
  answers every \<open>eth_call\<close> with an error object in place of the result (the contract
  reverts). \<open>answers_ex\<close> and \<open>log_answers_ex\<close> are the answers to a request that is
  rate-limited at the first attempt, gets a server error at the second and is answered
  from the third on.
\<close>

definition rt_ex :: runtime where
  "rt_ex = \<lparr>iter_strs = remdups, iter_paths = remdups,
            decode = (\<lambda>bs. if list_all (\<lambda>b. b < 128) bs then Some (map char_of bs) else None)\<rparr>"

definition world_ex :: world where
  "world_ex = \<lparr>pool_address_redis = Map.empty, token_decimals_db = Map.empty,
               token_symbols_db = Map.empty, fetch_log = []\<rparr>"




definition chain_no_code :: chain where
  "chain_no_code =
     \<lparr>eth_call = (\<lambda>to selector attempt. Http 200 (Some ''0x'')),
      eth_getLogs = (\<lambda>from_block to_block attempt. Http 200 (Some []))\<rparr>"

definition chain_reverting :: chain where
  "chain_reverting =
     \<lparr>eth_call = (\<lambda>to selector attempt. Http 200 None),
      eth_getLogs = (\<lambda>from_block to_block attempt. Http 200 (Some []))\<rparr>"

text \<open>
  The 64 hexadecimal digits that encode a signed 256-bit integer in a log's data, and
  the digits and bytes of a number in general (the lowest \<open>k\<close>, most significant
  first).
\<close>

definition hexdigit :: "nat \<Rightarrow> char" where
  "hexdigit n = (if n < 10 then char_of (48 + n) else char_of (87 + n))"

fun hex_of_nat :: "nat \<Rightarrow> nat \<Rightarrow> string" where
  "hex_of_nat 0 n = []"
| "hex_of_nat (Suc k) n = hex_of_nat k (n div 16) @ [hexdigit (n mod 16)]"

fun bytes_of_nat :: "nat \<Rightarrow> nat \<Rightarrow> nat list" where
  "bytes_of_nat 0 n = []"
| "bytes_of_nat (Suc k) n = bytes_of_nat k (n div 256) @ [n mod 256]"

definition hex_word :: "256 word \<Rightarrow> string" where
  "hex_word w = hex_of_nat 64 (unat w)"

text \<open>
  A swap log, with the token pair of its pool. Its data holds the five 32-byte words of
  a Swap event (322 characters): the amounts \<open>-1000\<close> and \<open>500\<close>, then the price, the
  liquidity and the tick.
\<close>

definition log_ex :: raw_log where
  "log_ex =
     \<lparr>log_address = ''0xPool'', log_blockNumber = ''0x3e8'', log_transactionHash = ''0xth'',
      log_logIndex = ''0x1'',
      log_data = ''0xfffffffffffffffffffffffffffffffffffffffffffffffffffffffffffffc1800000000000000000000000000000000000000000000000000000000000001f400000000000000000000000000000000000000010000000000000000000000000000000000000000000000000000000000000000000000000de0b6b3a7640000fffffffffffffffffffffffffffffffffffffffffffffffffffffffffffffc18''\<rparr>"

definition pool_tokens_ex :: "string \<rightharpoonup> string list" where
  "pool_tokens_ex = [''0xPool'' \<mapsto> [''0xAAAA'', ''0xbbbb'']]"

text \<open>
  A node with two pools. Pool 1 trades token \<open>a\<close> for token \<open>b\<close>, pool 2 token \<open>c\<close> for
  token \<open>d\<close>. The block window below block 1500 holds one swap of pool 1 (1000 of \<open>a\<close>
  for 2000 of \<open>b\<close>), the window above it that swap and one of pool 2. The first attempt
  of every \<open>eth_call\<close> is rate-limited and the first attempt of every log query gets
  status 500. Both tokens have 18 decimals and the symbol \<open>ABC\<close>.
\<close>

definition token_a :: string where
  "token_a = ''0xaaaaaaaaaaaaaaaaaaaaaaaaaaaaaaaaaaaaaaaa''"

definition token_b :: string where
  "token_b = ''0xbbbbbbbbbbbbbbbbbbbbbbbbbbbbbbbbbbbbbbbb''"

definition token_c :: string where
  "token_c = ''0xcccccccccccccccccccccccccccccccccccccccc''"

definition token_d :: string where
  "token_d = ''0xdddddddddddddddddddddddddddddddddddddddd''"

definition log_ab :: raw_log where
  "log_ab =
     \<lparr>log_address = ''0xPool1'', log_blockNumber = ''0x3e8'', log_transactionHash = ''0xth1'',
      log_logIndex = ''0x1'',
      log_data = ''0x00000000000000000000000000000000000000000000000000000000000003e8fffffffffffffffffffffffffffffffffffffffffffffffffffffffffffff830''\<rparr>"

definition log_cd :: raw_log where
  "log_cd =
     \<lparr>log_address = ''0xPool2'', log_blockNumber = ''0x7d0'', log_transactionHash = ''0xth2'',
      log_logIndex = ''0x2'',
      log_data = ''0xfffffffffffffffffffffffffffffffffffffffffffffffffffffffffffffff60000000000000000000000000000000000000000000000000000000000000005''\<rparr>"

definition chain_ex :: chain where
  "chain_ex =
     \<lparr>eth_call = (\<lambda>to selector attempt.
         if attempt = 0 then Http 429 None
         else if selector = ''0x0dfe1681'' then
           Http 200 (Some (if to = ''0xPool1''
             then ''0x000000000000000000000000AAAAaaaaaaaaaaaaaaaaaaaaaaaaaaaaaaaaaaaa''
             else ''0x000000000000000000000000cccccccccccccccccccccccccccccccccccccccc''))
         else if selector = ''0xd21220a7'' then
           Http 200 (Some (if to = ''0xPool1''
             then ''0x000000000000000000000000bbbbbbbbbbbbbbbbbbbbbbbbbbbbbbbbbbbbbbbb''
             else ''0x000000000000000000000000dddddddddddddddddddddddddddddddddddddddd''))
         else if selector = ''0x313ce567'' then Http 200 (Some ''0x12'')
         else Http 200 (Some ''0x414243'')),
      eth_getLogs = (\<lambda>from_block to_block attempt.
         if attempt = 0 then Http 500 None
         else Http 200 (Some (if from_block < 1500 then [log_ab] else [log_ab, log_cd])))\<rparr>"

definition swap_ab :: SwapEvent where
  "swap_ab =
     \<lparr>block_number = 1000, transaction_hash = ''0xth1'', log_index = 1, address = ''0xpool1'',
      from_token = token_a, to_token = token_b, from_amount = 1000, to_amount = 2000\<rparr>"

definition swap_cd :: SwapEvent where
  "swap_cd =
     \<lparr>block_number = 2000, transaction_hash = ''0xth2'', log_index = 2, address = ''0xpool2'',
      from_token = token_c, to_token = token_d, from_amount = 10, to_amount = 5\<rparr>"

definition swap_cb :: SwapEvent where
  "swap_cb =
     \<lparr>block_number = 1001, transaction_hash = ''0xth3'', log_index = 3, address = ''0xpool3'',
      from_token = token_c, to_token = token_b, from_amount = 2000, to_amount = 1000\<rparr>"

text \<open>The cache after the ingestion of the first and of the second window.\<close>

definition world_1 :: world where
  "world_1 =
     \<lparr>pool_address_redis =
        [''0xPool1'' \<mapsto> ''0xAAAAaaaaaaaaaaaaaaaaaaaaaaaaaaaaaaaaaaaa,0xbbbbbbbbbbbbbbbbbbbbbbbbbbbbbbbbbbbbbbbb''],
      token_decimals_db = Map.empty, token_symbols_db = Map.empty,
      fetch_log = [(''fetch_pool_tokens'', ''0xPool1'')]\<rparr>"

definition world_2 :: world where
  "world_2 =
     \<lparr>pool_address_redis =
        [''0xPool1'' \<mapsto> ''0xAAAAaaaaaaaaaaaaaaaaaaaaaaaaaaaaaaaaaaaa,0xbbbbbbbbbbbbbbbbbbbbbbbbbbbbbbbbbbbbbbbb'',
         ''0xPool2'' \<mapsto> ''0xcccccccccccccccccccccccccccccccccccccccc,0xdddddddddddddddddddddddddddddddddddddddd''],
      token_decimals_db = Map.empty, token_symbols_db = Map.empty,
      fetch_log = [(''fetch_pool_tokens'', ''0xPool1''), (''fetch_pool_tokens'', ''0xPool2'')]\<rparr>"

section \<open>Properties of the model\<close>

subsection \<open>Decimal scaling\<close>

lemma pow10_in_range:
  assumes "0 \<le> d" and "d \<le> 308"
  shows "pow10 d = Inr (10 ^ nat d)"
proof -
  from assms(2) have "nat d \<le> 308" by simp
  then have "(10 :: rat) ^ nat d \<le> 10 ^ 308" by (rule power_increasing) simp
  also have "(10 :: rat) ^ 308 < double_overflow" by (simp add: double_overflow_def)
  finally have "\<not> double_overflow \<le> (10 :: rat) ^ nat d" by simp
  with assms(1) show ?thesis by (simp add: pow10_def float_of_int_def)
qed

lemma round_double_in_range:
  assumes "in_double_range x"
  shows "round_double x = Double x"
proof (cases "x = 0")
  case True
  then show ?thesis by (simp add: round_double_def double_overflow_def)
next
  case False
  with assms have lo: "1 / 2 ^ 1022 \<le> \<bar>x\<bar>" and hi: "\<bar>x\<bar> < double_overflow"
    by (simp_all add: in_double_range_def)
  have "(1 :: rat) / 2 ^ 1075 < 1 / 2 ^ 1022" by simp
  with lo have "\<not> \<bar>x\<bar> \<le> 1 / 2 ^ 1075" by simp
  moreover from hi have "\<not> double_overflow \<le> x" and "\<not> x \<le> - double_overflow" by simp_all
  ultimately show ?thesis by (simp add: round_double_def)
qed

lemma scale_by_decimals_in_range:
  assumes "0 \<le> d0" and "d0 \<le> 308" and "0 \<le> d1" and "d1 \<le> 308"
    and "in_double_range (r * 10 ^ nat d0)"
    and "in_double_range (r * 10 ^ nat d0 / 10 ^ nat d1)"
  shows "scale_by_decimals r d0 d1 = Inr (Double (r * 10 ^ nat d0 / 10 ^ nat d1))"
  by (simp add: scale_by_decimals_def pow10_in_range [OF assms(1,2)]
      pow10_in_range [OF assms(3,4)] round_double_in_range [OF assms(5)]
      round_double_in_range [OF assms(6)] float_div_def)

lemma scale_18: "scale_by_decimals 2 18 18 = Inr (Double 2)"
proof -
  have "in_double_range (2 * 10 ^ nat 18)" and "in_double_range (2 * 10 ^ nat 18 / 10 ^ nat 18)"
    by (simp_all add: in_double_range_def double_overflow_def)
  then have "scale_by_decimals 2 18 18 = Inr (Double (2 * 10 ^ nat 18 / 10 ^ nat 18))"
    by (intro scale_by_decimals_in_range) simp_all
  then show ?thesis by simp
qed




subsection \<open>The token ids and the swap graph\<close>

lemma token_id_map_None: "token_id_map toks t = None \<longleftrightarrow> t \<notin> set toks"
  by (simp add: token_id_map_def map_of_zip_is_None)

lemma token_id_map_SomeD:
  assumes "token_id_map toks t = Some i"
  shows "i < length toks \<and> toks ! i = t"
proof -
  from assms have "(t, i) \<in> set (zip toks [0..<length toks])"
    by (auto simp: token_id_map_def dest: map_of_SomeD)
  then obtain k where "k < length toks" "toks ! k = t" "[0..<length toks] ! k = i"
    by (auto simp: in_set_zip)
  then show ?thesis by simp
qed

lemma token_id_map_inv_eq:
  "token_id_map_inv toks i = (if i < length toks then Some (toks ! i) else None)"
proof (cases "i < length toks")
  case True
  have "map_of (zip [0..<length toks] toks) ([0..<length toks] ! i) = Some (toks ! i)"
    by (rule map_of_zip_nth) (use True in simp_all)
  with True show ?thesis by (simp add: token_id_map_inv_def)
next
  case False
  then show ?thesis by (simp add: token_id_map_inv_def map_of_zip_is_None)
qed

lemma token_id_map_nth:
  assumes "distinct toks" "i < length toks"
  shows "token_id_map toks (toks ! i) = Some i"
proof -
  have "map_of (zip toks [0..<length toks]) (toks ! i) = Some ([0..<length toks] ! i)"
    by (rule map_of_zip_nth) (use assms in simp_all)
  with assms show ?thesis by (simp add: token_id_map_def)
qed

lemma add_swaps_ok:
  assumes "swap_tokens swaps \<subseteq> set toks"
  shows "add_swaps toks swaps g = Inr (g\<lparr>edges := edges g @ map (swap_edge toks) swaps\<rparr>)"
  using assms
proof (induction swaps arbitrary: g)
  case Nil
  then show ?case by simp
next
  case (Cons s swaps)
  from Cons.prems obtain i j where ij: "token_id_map toks (from_token s) = Some i"
      "token_id_map toks (to_token s) = Some j"
    using token_id_map_None [of toks] by (fastforce simp: swap_tokens_def)
  from Cons.prems have "swap_tokens swaps \<subseteq> set toks" by (auto simp: swap_tokens_def)
  from Cons.IH [OF this] ij show ?case
    by (simp add: add_edge_def swap_edge_def tid_def)
qed

lemma add_nodes_ok:
  assumes "set keys \<subseteq> set toks"
  shows "add_nodes toks keys g = Inr (g\<lparr>nodes := nodes g @ map (tid toks) keys\<rparr>)"
  using assms
proof (induction keys arbitrary: g)
  case Nil
  then show ?case by simp
next
  case (Cons key keys)
  from Cons.prems obtain i where i: "token_id_map toks key = Some i"
    using token_id_map_None [of toks key] by auto
  from Cons.prems have "set keys \<subseteq> set toks" by simp
  from Cons.IH [OF this] i show ?case by (simp add: add_node_def tid_def)
qed

lemma tid_enumerates:
  assumes "distinct toks"
  shows "map (tid toks) toks = [0..<length toks]"
proof (rule nth_equalityI)
  show "length (map (tid toks) toks) = length [0..<length toks]" by simp
next
  fix i assume "i < length (map (tid toks) toks)"
  then have i: "i < length toks" by simp
  from token_id_map_nth [OF assms i] have "tid toks (toks ! i) = i" by (simp add: tid_def)
  with i show "map (tid toks) toks ! i = [0..<length toks] ! i" by simp
qed

lemma build_graph_ok:
  assumes "swap_tokens swaps \<subseteq> set toks" and "distinct toks"
  shows "build_graph toks swaps =
           Inr \<lparr>nodes = [0..<length toks], edges = map (swap_edge toks) swaps\<rparr>"
  by (simp add: build_graph_def add_nodes_ok add_swaps_ok [OF assms(1)] empty_graph_def
      tid_enumerates [OF assms(2)])

lemma token_addresses_set:
  assumes "valid_runtime rt"
  shows "set (token_addresses rt swaps) = swap_tokens swaps"
    and "distinct (token_addresses rt swaps)"
  using assms
  by (simp_all add: valid_runtime_def set_iteration_def token_addresses_def swap_tokens_def)

subsection \<open>Path selection\<close>

lemma set_iteration_Nil:
  assumes "set_iteration it"
  shows "it [] = []"
proof -
  from assms have "set (it []) = set []" unfolding set_iteration_def by blast
  then show ?thesis by simp
qed

lemma set_iteration_single:
  assumes "set_iteration it"
  shows "it [x] = [x]"
proof -
  from assms have d: "distinct (it [x])" and s: "set (it [x]) = {x}"
    by (simp_all add: set_iteration_def)
  from d have "length (it [x]) = card (set (it [x]))" by (simp add: distinct_card)
  with s have "length (it [x]) = 1" by simp
  then obtain y where "it [x] = [y]" by (cases "it [x]") auto
  with s show ?thesis by simp
qed

lemma select_path_unfold:
  assumes "valid_runtime rt"
  shows "select_path rt swaps token0 token1 =
     (let toks = token_addresses rt swaps;
          graph = \<lparr>nodes = [0..<length toks], edges = map (swap_edge toks) swaps\<rparr>
      in case token_id_map toks token0 of
           None \<Rightarrow> Inl (token0_not_found token0)
         | Some from_token_id \<Rightarrow>
             (case token_id_map toks token1 of
                None \<Rightarrow> Inl (token1_not_found token1)
              | Some to_token_id \<Rightarrow>
                  (case iter_paths rt (graph_all_shortest_paths graph from_token_id to_token_id) of
                     [] \<Rightarrow> Inl (no_swap_path token0 token1)
                   | path # _ \<Rightarrow>
                       (case walk_path graph (token_id_map_inv toks) path 1 of
                          Inl e \<Rightarrow> Inl e
                        | Inr total_ratio \<Rightarrow> Inr (total_ratio, path)))))"
proof -
  have "swap_tokens swaps \<subseteq> set (token_addresses rt swaps)"
    using token_addresses_set(1) [OF assms] by simp
  from build_graph_ok [OF this token_addresses_set(2) [OF assms]] show ?thesis
    by (simp add: select_path_def Let_def)
qed

lemma select_path_missing:
  assumes "valid_runtime rt"
    and "token0 \<notin> swap_tokens swaps \<or> token1 \<notin> swap_tokens swaps"
  shows "select_path rt swaps token0 token1 =
           Inl (if token0 \<notin> swap_tokens swaps then token0_not_found token0
                else token1_not_found token1)"
proof (cases "token0 \<in> swap_tokens swaps")
  case False
  then have "token_id_map (token_addresses rt swaps) token0 = None"
    by (simp add: token_id_map_None token_addresses_set(1) [OF assms(1)])
  with False show ?thesis by (simp add: select_path_unfold [OF assms(1)] Let_def)
next
  case True
  then obtain i where i: "token_id_map (token_addresses rt swaps) token0 = Some i"
    using token_id_map_None [of "token_addresses rt swaps" token0]
    by (auto simp: token_addresses_set(1) [OF assms(1)])
  from True assms(2) have "token_id_map (token_addresses rt swaps) token1 = None"
    by (simp add: token_id_map_None token_addresses_set(1) [OF assms(1)])
  with True i show ?thesis by (simp add: select_path_unfold [OF assms(1)] Let_def)
qed

lemma conversion_select_error:
  assumes "get_swaps rt ch w (block - 100) (block + 100) = Some (Inr swaps, w1)"
    and "select_path rt swaps (lower token0) (lower token1) = Inl e"
  shows "get_token_conversion_rate rt ch w token0 token1 block = Some (Inl e, w1)"
  using assms by (simp add: get_token_conversion_rate_def Let_def)

text \<open>
  C6. When the swaps of the block window have been ingested and the (lower-cased) source
  token, or else the target token, is not among their tokens, so it is no node of the
  swap graph, the conversion fails with the "not found in swap events" exception of line
  213 or 216 and returns no result.
\<close>

theorem missing_token_fails:
  assumes "valid_runtime rt"
    and "get_swaps rt ch w (block - 100) (block + 100) = Some (Inr swaps, w1)"
    and "lower token0 \<notin> swap_tokens swaps \<or> lower token1 \<notin> swap_tokens swaps"
  shows "get_token_conversion_rate rt ch w token0 token1 block =
           Some (Inl (if lower token0 \<notin> swap_tokens swaps then token0_not_found (lower token0)
                      else token1_not_found (lower token1)), w1)"
  by (rule conversion_select_error [OF assms(2)]) (rule select_path_missing [OF assms(1,3)])


lemma select_path_same:
  assumes "valid_runtime rt" and "token \<in> swap_tokens swaps"
  shows "select_path rt swaps token token = Inl (no_swap_path token token)"
proof -
  let ?toks = "token_addresses rt swaps"
  from assms obtain i where i: "token_id_map ?toks token = Some i"
    using token_id_map_None [of ?toks token] by (auto simp: token_addresses_set(1))
  from assms(1) have it: "set_iteration (iter_paths rt)" by (simp add: valid_runtime_def)
  show ?thesis
    by (simp add: select_path_unfold [OF assms(1)] Let_def i graph_all_shortest_paths_def
        set_iteration_Nil [OF it])
qed

text \<open>
  C10, as the code has it. When source and target are the same token (after lower-casing) and the
  swaps of the block window have been ingested, the conversion returns no rate: if the
  token is a node of the swap graph, the library finds no path from it to itself, the
  list of paths is empty and the conversion fails with the "No swap path found"
  exception of line 228; otherwise it fails with the exception of line 213.
\<close>

theorem same_token_no_path:
  assumes "valid_runtime rt"
    and "get_swaps rt ch w (block - 100) (block + 100) = Some (Inr swaps, w1)"
    and "lower token1 = lower token0"
  shows "get_token_conversion_rate rt ch w token0 token1 block =
           Some (Inl (if lower token0 \<in> swap_tokens swaps
                      then no_swap_path (lower token0) (lower token0)
                      else token0_not_found (lower token0)), w1)"
proof (cases "lower token0 \<in> swap_tokens swaps")
  case True
  from select_path_same [OF assms(1) True] assms(3)
  have "select_path rt swaps (lower token0) (lower token1) =
          Inl (no_swap_path (lower token0) (lower token0))" by simp
  from conversion_select_error [OF assms(2) this] True show ?thesis by simp
next
  case False
  then have "lower token0 \<notin> swap_tokens swaps \<or> lower token1 \<notin> swap_tokens swaps" by simp
  from conversion_select_error [OF assms(2) select_path_missing [OF assms(1) this]] False
  show ?thesis by simp
qed


lemma set_iteration_pair:
  assumes "set_iteration it" and "a \<noteq> b"
  shows "it [a, b] = [a, b] \<or> it [a, b] = [b, a]"
proof -
  from assms(1) have d: "distinct (it [a, b])" and s: "set (it [a, b]) = {a, b}"
    by (simp_all add: set_iteration_def)
  from d have "length (it [a, b]) = card (set (it [a, b]))" by (simp add: distinct_card)
  with s assms(2) have "length (it [a, b]) = 2" by simp
  then obtain x y where xy: "it [a, b] = [x, y]"
    by (cases "it [a, b]") (auto simp: length_Suc_conv)
  with d s show ?thesis by (auto simp: doubleton_eq_iff)
qed

lemma select_path_one_swap:
  assumes "valid_runtime rt"
    and "from_token s \<noteq> to_token s"
    and "from_amount s \<noteq> 0"
  shows "\<exists>path. select_path rt [s] (from_token s) (to_token s) =
             Inr (of_int (to_amount s) / of_int (from_amount s), path) \<and>
           path_tokens (token_id_map_inv (token_addresses rt [s])) path =
             Inr [from_token s, to_token s]"
proof -
  from assms(1) have its: "set_iteration (iter_strs rt)" and itp: "set_iteration (iter_paths rt)"
    by (simp_all add: valid_runtime_def)
  have "token_addresses rt [s] = [from_token s, to_token s] \<or>
        token_addresses rt [s] = [to_token s, from_token s]"
    using set_iteration_pair [OF its assms(2)] by (simp add: token_addresses_def)
  then show ?thesis
  proof
    assume toks: "token_addresses rt [s] = [from_token s, to_token s]"
    show ?thesis
      using assms(2,3)
      by (simp add: select_path_unfold [OF assms(1)] toks Let_def token_id_map_def
          token_id_map_inv_def graph_all_shortest_paths_def ends_at_def extend_path_def
          neighbors_def swap_edge_def tid_def set_iteration_single [OF itp]
          get_edge_data_def ratio_step_def ratio_def tokens_match_def inv_lookup_def)
  next
    assume toks: "token_addresses rt [s] = [to_token s, from_token s]"
    show ?thesis
      using assms(2,3)
      by (simp add: select_path_unfold [OF assms(1)] toks Let_def token_id_map_def
          token_id_map_inv_def graph_all_shortest_paths_def ends_at_def extend_path_def
          neighbors_def swap_edge_def tid_def set_iteration_single [OF itp]
          get_edge_data_def ratio_step_def ratio_def tokens_match_def inv_lookup_def)
  qed
qed

text \<open>
  C1. End to end: when the block window holds one swap from \<open>A\<close> to \<open>B\<close> with
  amounts 1000 and 2000 and both tokens have 18 decimals, the conversion from \<open>A\<close> to
  \<open>B\<close> returns the rate 2 and the path \<open>[A, B]\<close> (addresses in lower case, as the source
  normalises them).
\<close>

theorem one_swap_conversion:
  assumes "valid_runtime rt"
    and "get_swaps rt ch w (block - 100) (block + 100) = Some (Inr [s], w1)"
    and "from_token s = lower A" and "to_token s = lower B" and "lower A \<noteq> lower B"
    and "from_amount s = 1000" and "to_amount s = 2000"
    and "get_token_decimals ch w1 (lower A) = Some (Inr 18, w2)"
    and "get_token_decimals ch w2 (lower B) = Some (Inr 18, w3)"
    and "get_token_symbol rt ch w3 (lower A) = Some (Inr s0, w4)"
    and "get_token_symbol rt ch w4 (lower B) = Some (Inr s1, w5)"
  shows "get_token_conversion_rate rt ch w A B block =
           Some (Inr \<lparr>conversion_rate = Double 2, token0_decimals = 18, token1_decimals = 18,
                      token0_symbol = parse_symbol s0, token1_symbol = parse_symbol s1,
                      token_pair_path = [lower A, lower B]\<rparr>, w5)"
proof -
  have ne: "from_token s \<noteq> to_token s" and nz: "from_amount s \<noteq> 0"
    using assms(3-6) by simp_all
  from select_path_one_swap [OF assms(1) ne nz] obtain path
    where sel: "select_path rt [s] (lower A) (lower B) = Inr (2, path)"
      and toks: "path_tokens (token_id_map_inv (token_addresses rt [s])) path =
                   Inr [lower A, lower B]"
    using assms(3,4,6,7) by auto
  show ?thesis
    by (simp add: get_token_conversion_rate_def Let_def assms(2) sel assms(8-11) toks scale_18)
qed

subsection \<open>Tokens in different components\<close>

lemma neighbors_links:
  assumes "v \<in> set (neighbors g u)"
  shows "(u, v) \<in> graph_links g"
  using assms by (auto simp: neighbors_def graph_links_def split: if_splits)

lemma search_reaches:
  "(\<forall>p\<in>set ps. \<forall>u. ends_at u p \<longrightarrow> (s, u) \<in> (graph_links g)\<^sup>*) \<Longrightarrow>
   q \<in> set (search n g t ps) \<Longrightarrow> (s, t) \<in> (graph_links g)\<^sup>*"
proof (induction n arbitrary: ps)
  case 0
  then show ?case by simp
next
  case (Suc n)
  show ?case
  proof (cases "filter (ends_at t) ps = []")
    case False
    then obtain p where "p \<in> set ps" "ends_at t p"
      by (metis filter_False)
    with Suc.prems(1) show ?thesis by blast
  next
    case True
    with Suc.prems(2) have q: "q \<in> set (search n g t (concat (map (extend_path g) ps)))"
      by simp
    have "\<forall>p'\<in>set (concat (map (extend_path g) ps)). \<forall>u. ends_at u p' \<longrightarrow>
            (s, u) \<in> (graph_links g)\<^sup>*"
    proof (intro ballI allI impI)
      fix p' u
      assume p': "p' \<in> set (concat (map (extend_path g) ps))" and e: "ends_at u p'"
      from p' obtain p where p: "p \<in> set ps" and ext: "p' \<in> set (extend_path g p)" by auto
      from ext obtain x xs v where px: "p = x # xs" and v: "v \<in> set (neighbors g x)"
        and p'v: "p' = v # p"
        by (auto simp: extend_path_def split: list.splits)
      from e p'v have uv: "u = v" by (simp add: ends_at_def)
      from p px Suc.prems(1) have "(s, x) \<in> (graph_links g)\<^sup>*"
        by (auto simp: ends_at_def)
      moreover from v have "(x, v) \<in> graph_links g" by (rule neighbors_links)
      ultimately show "(s, u) \<in> (graph_links g)\<^sup>*" using uv by auto
    qed
    from Suc.IH [OF this q] show ?thesis .
  qed
qed

lemma graph_all_shortest_paths_reaches:
  assumes "q \<in> set (graph_all_shortest_paths g s t)"
  shows "(s, t) \<in> (graph_links g)\<^sup>*"
proof (rule search_reaches)
  show "q \<in> set (search (length (nodes g)) g t [[s]])"
    using assms by (simp add: graph_all_shortest_paths_def split: if_splits)
next
  show "\<forall>p\<in>set [[s]]. \<forall>u. ends_at u p \<longrightarrow> (s, u) \<in> (graph_links g)\<^sup>*"
    by (simp add: ends_at_def)
qed

lemma tid_nth:
  assumes "t \<in> set toks"
  shows "tid toks t < length toks \<and> toks ! tid toks t = t"
proof -
  from assms obtain i where "token_id_map toks t = Some i"
    using token_id_map_None [of toks t] by auto
  then show ?thesis using token_id_map_SomeD [of toks t i] by (simp add: tid_def)
qed

lemma graph_links_tokens:
  assumes "swap_tokens swaps \<subseteq> set toks"
    and "(a, b) \<in> graph_links \<lparr>nodes = ns, edges = map (swap_edge toks) swaps\<rparr>"
  shows "(toks ! a, toks ! b) \<in> swap_links swaps"
proof -
  from assms(2) obtain s where s: "s \<in> set swaps"
    and ab: "(a = tid toks (from_token s) \<and> b = tid toks (to_token s)) \<or>
             (b = tid toks (from_token s) \<and> a = tid toks (to_token s))"
    by (auto simp: graph_links_def swap_edge_def)
  from s assms(1) have "from_token s \<in> set toks" "to_token s \<in> set toks"
    by (auto simp: swap_tokens_def)
  then have "toks ! tid toks (from_token s) = from_token s"
    "toks ! tid toks (to_token s) = to_token s"
    using tid_nth by simp_all
  with ab s show ?thesis by (auto simp: swap_links_def)
qed

lemma graph_reach_tokens:
  assumes "swap_tokens swaps \<subseteq> set toks"
    and "(a, b) \<in> (graph_links \<lparr>nodes = ns, edges = map (swap_edge toks) swaps\<rparr>)\<^sup>*"
  shows "(toks ! a, toks ! b) \<in> (swap_links swaps)\<^sup>*"
  using assms(2)
proof (induction rule: rtrancl_induct)
  case base
  then show ?case by simp
next
  case (step y z)
  from graph_links_tokens [OF assms(1) step.hyps(2)] step.IH show ?case by auto
qed

lemma select_path_disconnected:
  assumes "valid_runtime rt"
    and "token0 \<in> swap_tokens swaps" and "token1 \<in> swap_tokens swaps"
    and "\<not> connected swaps token0 token1"
  shows "select_path rt swaps token0 token1 = Inl (no_swap_path token0 token1)"
proof -
  let ?toks = "token_addresses rt swaps"
  let ?g = "\<lparr>nodes = [0..<length ?toks], edges = map (swap_edge ?toks) swaps\<rparr>"
  have sub: "swap_tokens swaps \<subseteq> set ?toks"
    using token_addresses_set(1) [OF assms(1)] by simp
  from assms(2,3) obtain i j where i: "token_id_map ?toks token0 = Some i"
    and j: "token_id_map ?toks token1 = Some j"
    using token_id_map_None [of ?toks] sub by fastforce
  from token_id_map_SomeD [OF i] token_id_map_SomeD [OF j]
  have nth: "?toks ! i = token0" "?toks ! j = token1" by simp_all
  have "graph_all_shortest_paths ?g i j = []"
  proof (rule ccontr)
    assume "graph_all_shortest_paths ?g i j \<noteq> []"
    then obtain q where "q \<in> set (graph_all_shortest_paths ?g i j)"
      by (cases "graph_all_shortest_paths ?g i j") auto
    then have "(i, j) \<in> (graph_links ?g)\<^sup>*" by (rule graph_all_shortest_paths_reaches)
    from graph_reach_tokens [OF sub this] nth assms(4) show False
      by (simp add: connected_def)
  qed
  moreover from assms(1) have "iter_paths rt [] = []"
    by (simp add: valid_runtime_def set_iteration_Nil)
  ultimately show ?thesis
    by (simp add: select_path_unfold [OF assms(1)] Let_def i j)
qed

text \<open>
  C7. When both tokens are nodes of the swap graph and no chain of swaps connects them,
  the conversion fails with the "No swap path found" exception of line 228 and returns
  no result.
\<close>

theorem disconnected_tokens_fail:
  assumes "valid_runtime rt"
    and "get_swaps rt ch w (block - 100) (block + 100) = Some (Inr swaps, w1)"
    and "lower token0 \<in> swap_tokens swaps" and "lower token1 \<in> swap_tokens swaps"
    and "\<not> connected swaps (lower token0) (lower token1)"
  shows "get_token_conversion_rate rt ch w token0 token1 block =
           Some (Inl (no_swap_path (lower token0) (lower token1)), w1)"
  by (rule conversion_select_error [OF assms(2)])
    (rule select_path_disconnected [OF assms(1,3,4,5)])

lemma not_connectedI:
  assumes "a \<in> S" and "b \<notin> S"
    and "\<And>s. s \<in> set swaps \<Longrightarrow> from_token s \<in> S \<longleftrightarrow> to_token s \<in> S"
  shows "\<not> connected swaps a b"
proof
  assume "connected swaps a b"
  then have "(a, b) \<in> (swap_links swaps)\<^sup>*" by (simp add: connected_def)
  then have "b \<in> S"
  proof (induction rule: rtrancl_induct)
    case base
    then show ?case by (rule assms(1))
  next
    case (step y z)
    then show ?case using assms(3) by (auto simp: swap_links_def)
  qed
  with assms(2) show False by simp
qed

subsection \<open>Direction-aware aggregation\<close>

lemma set_iteration_triple:
  assumes "set_iteration it" and "set xs = {a, b, c}" and "a \<noteq> b" "a \<noteq> c" "b \<noteq> c"
  shows "it xs \<in> {[a, b, c], [a, c, b], [b, a, c], [b, c, a], [c, a, b], [c, b, a]}"
proof -
  from assms(1,2) have d: "distinct (it xs)" and s: "set (it xs) = {a, b, c}"
    by (simp_all add: set_iteration_def)
  from d have "length (it xs) = card (set (it xs))" by (simp add: distinct_card)
  with s assms(3-5) have "length (it xs) = 3" by simp
  then obtain x y z where xyz: "it xs = [x, y, z]"
    by (cases "it xs") (auto simp: length_Suc_conv numeral_3_eq_3)
  from s xyz have "x \<in> {a, b, c}" "y \<in> {a, b, c}" "z \<in> {a, b, c}" by auto
  with d xyz show ?thesis by auto
qed

lemma walk_path_step:
  assumes "get_edge_data g u v = Inr s" and "ratio s = Inr r"
    and "tinv u = Some tu" and "tinv v = Some tv"
  shows "walk_path g tinv (u # v # rest) acc =
           (if from_token s = tu \<and> to_token s = tv then walk_path g tinv (v # rest) (acc * r)
            else if to_token s = tu \<and> from_token s = tv then
              (if r = 0 then Inl ZeroDivisionError else walk_path g tinv (v # rest) (acc / r))
            else walk_path g tinv (v # rest) acc)"
  using assms by (simp add: ratio_step_def tokens_match_def inv_lookup_def)

lemmas eval_path_defs =
  Let_def token_id_map_def token_id_map_inv_def graph_all_shortest_paths_def ends_at_def
  extend_path_def neighbors_def swap_edge_def tid_def get_edge_data_def ratio_step_def
  tokens_match_def inv_lookup_def

lemma select_path_two_hops:
  assumes rt: "valid_runtime rt"
    and s1: "from_token s1 = A" "to_token s1 = B"
    and s2: "from_token s2 = C" "to_token s2 = B"
    and ne: "A \<noteq> B" "A \<noteq> C" "B \<noteq> C"
    and r1: "ratio s1 = Inr r1" and r2: "ratio s2 = Inr r2" and nz: "r2 \<noteq> 0"
  shows "\<exists>path. select_path rt [s1, s2] A C = Inr (r1 / r2, path) \<and>
           path_tokens (token_id_map_inv (token_addresses rt [s1, s2])) path = Inr [A, B, C]"
proof -
  from rt have its: "set_iteration (iter_strs rt)" and itp: "set_iteration (iter_paths rt)"
    by (simp_all add: valid_runtime_def)
  have "set [A, B, C, B] = {A, B, C}" by auto
  from set_iteration_triple [OF its this ne]
  have "token_addresses rt [s1, s2] \<in>
          {[A, B, C], [A, C, B], [B, A, C], [B, C, A], [C, A, B], [C, B, A]}"
    by (simp add: token_addresses_def s1 s2)
  then consider "token_addresses rt [s1, s2] = [A, B, C]"
    | "token_addresses rt [s1, s2] = [A, C, B]"
    | "token_addresses rt [s1, s2] = [B, A, C]"
    | "token_addresses rt [s1, s2] = [B, C, A]"
    | "token_addresses rt [s1, s2] = [C, A, B]"
    | "token_addresses rt [s1, s2] = [C, B, A]"
    by auto
  then show ?thesis
  proof cases
    case 1
    show ?thesis using ne nz
      by (simp add: select_path_unfold [OF rt] 1 s1 s2 r1 r2 eval_path_defs
          set_iteration_single [OF itp])
  next
    case 2
    show ?thesis using ne nz
      by (simp add: select_path_unfold [OF rt] 2 s1 s2 r1 r2 eval_path_defs
          set_iteration_single [OF itp])
  next
    case 3
    show ?thesis using ne nz
      by (simp add: select_path_unfold [OF rt] 3 s1 s2 r1 r2 eval_path_defs
          set_iteration_single [OF itp])
  next
    case 4
    show ?thesis using ne nz
      by (simp add: select_path_unfold [OF rt] 4 s1 s2 r1 r2 eval_path_defs
          set_iteration_single [OF itp])
  next
    case 5
    show ?thesis using ne nz
      by (simp add: select_path_unfold [OF rt] 5 s1 s2 r1 r2 eval_path_defs
          set_iteration_single [OF itp])
  next
    case 6
    show ?thesis using ne nz
      by (simp add: select_path_unfold [OF rt] 6 s1 s2 r1 r2 eval_path_defs
          set_iteration_single [OF itp])
  qed
qed

text \<open>
  C2. Walking the path, an edge from \<open>u\<close> to \<open>v\<close> whose swap runs in the direction of the
  walk multiplies the running ratio by the swap's ratio, and one whose swap runs against
  it divides the running ratio by the swap's ratio. In particular, with a swap from \<open>A\<close>
  to \<open>B\<close> of ratio 2 and a swap from \<open>C\<close> to \<open>B\<close> of ratio 1/2, the path selected from
  \<open>A\<close> to \<open>C\<close> is \<open>A, B, C\<close> and its aggregated ratio is 2 / (1/2) = 4.
\<close>

theorem direction_aware_ratio:
  assumes "get_edge_data g u v = Inr s" and "ratio s = Inr r"
    and "tinv u = Some tu" and "tinv v = Some tv"
    and "valid_runtime rt"
    and "from_token s1 = A" and "to_token s1 = B"
    and "from_token s2 = C" and "to_token s2 = B"
    and "A \<noteq> B" and "A \<noteq> C" and "B \<noteq> C"
    and "ratio s1 = Inr 2" and "ratio s2 = Inr (1 / 2)"
  shows "walk_path g tinv (u # v # rest) acc =
           (if from_token s = tu \<and> to_token s = tv then walk_path g tinv (v # rest) (acc * r)
            else if to_token s = tu \<and> from_token s = tv then
              (if r = 0 then Inl ZeroDivisionError else walk_path g tinv (v # rest) (acc / r))
            else walk_path g tinv (v # rest) acc) \<and>
         (\<exists>path. select_path rt [s1, s2] A C = Inr (4, path) \<and>
            path_tokens (token_id_map_inv (token_addresses rt [s1, s2])) path = Inr [A, B, C])"
proof -
  have "(1 / 2 :: rat) \<noteq> 0" by simp
  from select_path_two_hops [OF assms(5-14) this]
  have "\<exists>path. select_path rt [s1, s2] A C = Inr (4, path) \<and>
          path_tokens (token_id_map_inv (token_addresses rt [s1, s2])) path = Inr [A, B, C]"
    by simp
  with walk_path_step [OF assms(1-4)] show ?thesis by blast
qed

subsection \<open>The retry loops of the chain client\<close>




lemma token_decimals_loop_Some:
  assumes "token_decimals_loop net i slept = Some y"
  shows "\<exists>j. decimals_answer (net j)"
proof (rule token_decimals_loop.raw_induct
    [where P = "\<lambda>net i slept y. \<exists>j. decimals_answer (net j)", OF _ assms])
  fix f net i slept and y :: "(exn + int) \<times> nat"
  assume IH: "\<And>net i slept y. f net i slept = Some y \<Longrightarrow> \<exists>j. decimals_answer (net j)"
    and eq: "(case net i of
        TransportError \<Rightarrow> f net (i + 1) (slept + 1)
      | Http status body \<Rightarrow>
          if status = 200 then
            (case body of
               None \<Rightarrow> f net (i + 1) (slept + 1)
             | Some result \<Rightarrow>
                 (case int16 result of
                    None \<Rightarrow> f net (i + 1) (slept + 1)
                  | Some decimals \<Rightarrow> Some (Inr decimals, slept)))
          else f net (i + 1) (slept + 1)) = Some y"
  show "\<exists>j. decimals_answer (net j)"
  proof (cases "decimals_answer (net i)")
    case True
    then show ?thesis by blast
  next
    case False
    with eq have "f net (i + 1) (slept + 1) = Some y"
      by (auto simp: decimals_answer_def split: response.splits option.splits if_splits)
    then show ?thesis by (rule IH)
  qed
qed

lemma token_decimals_loop_never:
  assumes "\<forall>j. \<not> decimals_answer (net j)"
  shows "token_decimals_loop net i slept = None"
proof (cases "token_decimals_loop net i slept")
  case None
  then show ?thesis .
next
  case (Some y)
  from token_decimals_loop_Some [OF this] assms show ?thesis by blast
qed



















subsection \<open>What the chain client surfaces\<close>

lemma valid_rt_ex: "valid_runtime rt_ex"
  by (simp add: valid_runtime_def set_iteration_def rt_ex_def)





lemma pool_token_loop_no_body_Some:
  assumes "pool_token_loop net i slept = Some y"
  shows "\<exists>j. net j \<noteq> Http 200 None"
proof (rule pool_token_loop.raw_induct
    [where P = "\<lambda>net i slept y. \<exists>j. net j \<noteq> Http 200 None", OF _ assms])
  fix f net i slept and y :: "(exn + string) \<times> nat"
  assume IH: "\<And>net i slept y. f net i slept = Some y \<Longrightarrow> \<exists>j. net j \<noteq> Http 200 None"
    and eq: "(case net i of
        TransportError \<Rightarrow> f net (i + 1) (slept + 1)
      | Http status body \<Rightarrow>
          (let slept' = (if status = 429 then slept + 1 else slept)
           in if status = 200 then
                (case body of
                   None \<Rightarrow> f net (i + 1) (slept' + 1)
                 | Some result \<Rightarrow> Some (Inr (''0x'' @ slice result 26 66), slept'))
              else f net (i + 1) (slept' + 1))) = Some y"
  show "\<exists>j. net j \<noteq> Http 200 None"
  proof (cases "net i = Http 200 None")
    case False
    then show ?thesis by blast
  next
    case True
    with eq have "f net (i + 1) (slept + 1) = Some y" by simp
    then show ?thesis by (rule IH)
  qed
qed

lemma pool_token_loop_no_body:
  assumes "\<forall>j. net j = Http 200 None"
  shows "pool_token_loop net i slept = None"
  using pool_token_loop_no_body_Some [of net i slept] assms
  by (cases "pool_token_loop net i slept") auto

lemma token_symbol_loop_no_body_Some:
  assumes "token_symbol_loop rt net i slept = Some y"
  shows "\<exists>j. net j \<noteq> Http 200 None"
proof (rule token_symbol_loop.raw_induct
    [where P = "\<lambda>rt net i slept y. \<exists>j. net j \<noteq> Http 200 None", OF _ assms])
  fix f rt net i slept and y :: "(exn + string) \<times> nat"
  assume IH: "\<And>rt net i slept y. f rt net i slept = Some y \<Longrightarrow> \<exists>j. net j \<noteq> Http 200 None"
    and eq: "(case net i of
        TransportError \<Rightarrow> f rt net (i + 1) (slept + 1)
      | Http status body \<Rightarrow>
          if status = 200 then
            (case body of
               None \<Rightarrow> f rt net (i + 1) (slept + 1)
             | Some symbol \<Rightarrow>
                 (case fromhex (drop 2 symbol) of
                    None \<Rightarrow> f rt net (i + 1) (slept + 1)
                  | Some bs \<Rightarrow>
                      (case decode rt bs of
                         None \<Rightarrow> f rt net (i + 1) (slept + 1)
                       | Some text \<Rightarrow> Some (Inr text, slept))))
          else f rt net (i + 1) (slept + 1)) = Some y"
  show "\<exists>j. net j \<noteq> Http 200 None"
  proof (cases "net i = Http 200 None")
    case False
    then show ?thesis by blast
  next
    case True
    with eq have "f rt net (i + 1) (slept + 1) = Some y" by simp
    then show ?thesis by (rule IH)
  qed
qed

lemma token_symbol_loop_no_body:
  assumes "\<forall>j. net j = Http 200 None"
  shows "token_symbol_loop rt net i slept = None"
  using token_symbol_loop_no_body_Some [of rt net i slept] assms
  by (cases "token_symbol_loop rt net i slept") auto

text \<open>
  C5 on the code: for an address without code the decimals resolver never returns and
  the pool resolver returns the pair \<open>0x, 0x\<close>; for a contract that reverts none of the
  three resolvers returns. None of them raises \<open>ContractNotFoundException\<close>.
\<close>

theorem unresolvable_contract_never_raises:
  "get_token_decimals chain_no_code world_ex ''0xdead'' = None \<and>
   get_pool_tokens chain_no_code world_ex ''0xdead'' =
     Some (Inr [''0x'', ''0x''],
           \<lparr>pool_address_redis = [''0xdead'' \<mapsto> ''0x,0x''], token_decimals_db = Map.empty,
            token_symbols_db = Map.empty, fetch_log = [(''fetch_pool_tokens'', ''0xdead'')]\<rparr>) \<and>
   get_pool_tokens chain_reverting world_ex ''0xdead'' = None \<and>
   get_token_decimals chain_reverting world_ex ''0xdead'' = None \<and>
   get_token_symbol rt_ex chain_reverting world_ex ''0xdead'' = None"
proof -
  have i: "int16 ''0x'' = None" by (simp add: int16_def strip_def is_space_def)
  have "\<forall>j. \<not> decimals_answer (eth_call chain_no_code ''0xdead'' ''0x313ce567'' j)"
    by (simp add: decimals_answer_def chain_no_code_def i)
  then have 1: "fetch_token_decimals chain_no_code ''0xdead'' = None"
    unfolding fetch_token_decimals_def by (rule token_decimals_loop_never)
  have 2: "fetch_pool_tokens chain_no_code ''0xdead'' = Some (Inr [''0x'', ''0x''])"
    by (simp add: fetch_pool_tokens_def get_single_pool_token_async_def chain_no_code_def
        pool_token_loop.simps slice_def)
  have "\<forall>j. \<not> decimals_answer (eth_call chain_reverting ''0xdead'' ''0x313ce567'' j)"
    by (simp add: decimals_answer_def chain_reverting_def)
  then have 3: "fetch_token_decimals chain_reverting ''0xdead'' = None"
    unfolding fetch_token_decimals_def by (rule token_decimals_loop_never)
  have 4: "fetch_pool_tokens chain_reverting ''0xdead'' = None"
    by (simp add: fetch_pool_tokens_def get_single_pool_token_async_def chain_reverting_def
        pool_token_loop_no_body)
  have 5: "fetch_token_symbol rt_ex chain_reverting ''0xdead'' = None"
    by (simp add: fetch_token_symbol_def chain_reverting_def token_symbol_loop_no_body)
  have a: "get_token_decimals chain_no_code world_ex ''0xdead'' = None"
    by (simp add: get_token_decimals_def get_cached_token_decimals_def world_ex_def 1)
  have b: "get_pool_tokens chain_no_code world_ex ''0xdead'' =
     Some (Inr [''0x'', ''0x''],
           \<lparr>pool_address_redis = [''0xdead'' \<mapsto> ''0x,0x''], token_decimals_db = Map.empty,
            token_symbols_db = Map.empty, fetch_log = [(''fetch_pool_tokens'', ''0xdead'')]\<rparr>)"
    by (simp add: get_pool_tokens_def get_pool_pair_def world_ex_def 2 log_fetch_def
        store_pool_pair_def set_pool_pair_def)
  have c: "get_pool_tokens chain_reverting world_ex ''0xdead'' = None"
    by (simp add: get_pool_tokens_def get_pool_pair_def world_ex_def 4)
  have d: "get_token_decimals chain_reverting world_ex ''0xdead'' = None"
    by (simp add: get_token_decimals_def get_cached_token_decimals_def world_ex_def 3)
  have e: "get_token_symbol rt_ex chain_reverting world_ex ''0xdead'' = None"
    by (simp add: get_token_symbol_def get_cached_token_symbol_def world_ex_def 5)
  from a b c d e show ?thesis by blast
qed

subsection \<open>Resolving an address twice\<close>

lemma split_comma_no_comma:
  "CHR '','' \<notin> set t \<Longrightarrow> split_comma t = [t]"
  by (induction t) auto

lemma split_comma_append:
  "CHR '','' \<notin> set t0 \<Longrightarrow> split_comma (t0 @ CHR '','' # rest) = t0 # split_comma rest"
  by (induction t0) auto

lemma split_comma_pair:
  assumes "CHR '','' \<notin> set t0" and "CHR '','' \<notin> set t1"
  shows "split_comma (t0 @ '','' @ t1) = [t0, t1]"
  using assms by (simp add: split_comma_append split_comma_no_comma)

lemma fetch_pool_tokens_pair:
  assumes "fetch_pool_tokens ch pool = Some (Inr tokens)"
  shows "\<exists>t0 t1. tokens = [t0, t1]"
  using assms
  by (auto simp: fetch_pool_tokens_def split: option.splits sum.splits prod.splits)

lemma get_pool_tokens_miss:
  assumes "pool_address_redis w pool = None"
    and "get_pool_tokens ch w pool = Some (Inr tokens, w')"
  shows "\<exists>t0 t1. tokens = [t0, t1] \<and>
           w' = w\<lparr>pool_address_redis := (pool_address_redis w)(pool \<mapsto> t0 @ '','' @ t1),
                  fetch_log := fetch_log w @ [(''fetch_pool_tokens'', pool)]\<rparr>"
proof -
  from assms obtain r where r: "fetch_pool_tokens ch pool = Some r"
    by (cases "fetch_pool_tokens ch pool")
      (auto simp: get_pool_tokens_def get_pool_pair_def Let_def)
  with assms obtain toks where toks: "r = Inr toks"
    by (cases r) (auto simp: get_pool_tokens_def get_pool_pair_def Let_def)
  from fetch_pool_tokens_pair r toks obtain t0 t1 where t: "toks = [t0, t1]" by blast
  with assms r toks show ?thesis
    by (auto simp: get_pool_tokens_def get_pool_pair_def Let_def store_pool_pair_def
        set_pool_pair_def log_fetch_def)
qed

lemma get_pool_tokens_twice:
  assumes "pool_address_redis w pool = None"
    and "get_pool_tokens ch w pool = Some (Inr tokens, w')"
    and "\<forall>t\<in>set tokens. CHR '','' \<notin> set t"
  shows "get_pool_tokens ch' w' pool = Some (Inr tokens, w') \<and>
         fetch_log w' = fetch_log w @ [(''fetch_pool_tokens'', pool)]"
proof -
  from get_pool_tokens_miss [OF assms(1,2)] obtain t0 t1 where t: "tokens = [t0, t1]"
    and w': "w' = w\<lparr>pool_address_redis := (pool_address_redis w)(pool \<mapsto> t0 @ '','' @ t1),
                  fetch_log := fetch_log w @ [(''fetch_pool_tokens'', pool)]\<rparr>"
    by blast
  from assms(3) t have "split_comma (t0 @ '','' @ t1) = [t0, t1]"
    by (intro split_comma_pair) simp_all
  then show ?thesis
    by (simp add: get_pool_tokens_def get_pool_pair_def w' t store_pool_pair_def
        set_pool_pair_def)
qed

lemma get_token_decimals_twice:
  assumes "token_decimals_db w token = None"
    and "get_token_decimals ch w token = Some (Inr d, w')"
  shows "get_token_decimals ch' w' token = Some (Inr d, w') \<and>
         fetch_log w' = fetch_log w @ [(''fetch_token_decimals'', token)]"
proof -
  from assms have w': "w' = set_cached_token_decimals
      (log_fetch w ''fetch_token_decimals'' token) token d"
    by (auto simp: get_token_decimals_def get_cached_token_decimals_def Let_def
        split: option.splits sum.splits prod.splits)
  show ?thesis
    by (simp add: w' get_token_decimals_def get_cached_token_decimals_def
        set_cached_token_decimals_def log_fetch_def)
qed

lemma get_token_symbol_twice:
  assumes "token_symbols_db w token = None"
    and "get_token_symbol rt ch w token = Some (Inr s, w')"
  shows "get_token_symbol rt' ch' w' token = Some (Inr s, w') \<and>
         fetch_log w' = fetch_log w @ [(''fetch_token_symbol'', token)]"
proof -
  from assms have w': "w' = set_cached_token_symbol
      (log_fetch w ''fetch_token_symbol'' token) token s"
    by (auto simp: get_token_symbol_def get_cached_token_symbol_def Let_def
        split: option.splits sum.splits prod.splits)
  show ?thesis
    by (simp add: w' get_token_symbol_def get_cached_token_symbol_def
        set_cached_token_symbol_def log_fetch_def)
qed

text \<open>
  C9. When an address that is not yet cached has been resolved (pool tokens, decimals
  or symbol), exactly one fetch has been sent to the chain client, and resolving it
  again returns the same value and leaves cache and fetch log as they are, whatever the
  node \<open>ch'\<close> would answer: the second resolution is served from the cache. For the pool
  pair, which the cache keeps as comma-joined text, the token addresses hold no comma.
\<close>

theorem second_resolution_is_cached:
  assumes "pool_address_redis w pool = None"
    and "get_pool_tokens ch w pool = Some (Inr tokens, w1)"
    and "\<forall>t\<in>set tokens. CHR '','' \<notin> set t"
    and "token_decimals_db w token = None"
    and "get_token_decimals ch w token = Some (Inr d, w2)"
    and "token_symbols_db w token = None"
    and "get_token_symbol rt ch w token = Some (Inr s, w3)"
  shows "get_pool_tokens ch' w1 pool = Some (Inr tokens, w1) \<and>
         fetch_log w1 = fetch_log w @ [(''fetch_pool_tokens'', pool)] \<and>
         get_token_decimals ch' w2 token = Some (Inr d, w2) \<and>
         fetch_log w2 = fetch_log w @ [(''fetch_token_decimals'', token)] \<and>
         get_token_symbol rt' ch' w3 token = Some (Inr s, w3) \<and>
         fetch_log w3 = fetch_log w @ [(''fetch_token_symbol'', token)]"
  using get_pool_tokens_twice [OF assms(1,2,3), of ch']
    get_token_decimals_twice [OF assms(4,5), of ch']
    get_token_symbol_twice [OF assms(6,7), of rt' ch']
  by blast

subsection \<open>Parsing the amounts of a swap log\<close>

lemma hexval_hexdigit: "d < 16 \<Longrightarrow> hexval (hexdigit d) = Some d"
  by (auto simp: hexval_def hexdigit_def Let_def)

lemma hexdigit_no_space: "d < 16 \<Longrightarrow> \<not> is_ascii_space (hexdigit d)"
  by (auto simp: is_ascii_space_def hexdigit_def Let_def)

lemma length_hex_of_nat: "length (hex_of_nat k n) = k"
  by (induction k arbitrary: n) simp_all

lemma fromhex_append:
  "fromhex xs = Some bs \<Longrightarrow> fromhex (xs @ ys) = map_option ((@) bs) (fromhex ys)"
proof (induction xs arbitrary: bs rule: fromhex.induct)
  case 1
  then show ?case by (simp add: option.map_ident)
next
  case (2 c)
  then have "is_ascii_space c" and "bs = []" by (auto split: if_splits)
  then show ?case by (cases ys) (simp_all add: option.map_ident)
next
  case (3 c d cs)
  show ?case
  proof (cases "is_ascii_space c")
    case True
    with 3 show ?thesis by simp
  next
    case False
    with "3.prems" obtain a b rest where ab: "hexval c = Some a" "hexval d = Some b"
      and rest: "fromhex cs = Some rest" and bs: "bs = (16 * a + b) # rest"
      by (auto split: option.splits)
    have "fromhex (cs @ ys) = map_option ((@) rest) (fromhex ys)"
      by (rule "3.IH"(2) [OF False refl ab rest])
    with False ab bs show ?thesis by (simp add: option.map_comp comp_def)
  qed
qed


lemma fromhex_hex_of_nat:
  "fromhex (hex_of_nat (2 * k) n) = Some (bytes_of_nat k n)"
proof (induction k arbitrary: n)
  case 0
  then show ?case by simp
next
  case (Suc k)
  have pair: "fromhex [hexdigit (n div 16 mod 16), hexdigit (n mod 16)] = Some [n mod 256]"
  proof -
    have "16 * (n div 16 mod 16) + n mod 16 = n mod 256"
      using mod_mult2_eq [of n 16 16] by simp
    then show ?thesis
      by (simp add: hexval_hexdigit hexdigit_no_space)
  qed
  have "hex_of_nat (2 * Suc k) n =
          hex_of_nat (2 * k) (n div 256) @ [hexdigit (n div 16 mod 16), hexdigit (n mod 16)]"
  proof -
    have "n div 16 div 16 = n div 256" by (simp add: div_mult2_eq)
    then show ?thesis by simp
  qed
  with fromhex_append [OF Suc.IH [of "n div 256"]] pair show ?case by simp
qed

lemma from_bytes_unsigned_snoc:
  "from_bytes_unsigned (bs @ [b]) = 256 * from_bytes_unsigned bs + int b"
  by (simp add: from_bytes_unsigned_def)

lemma from_bytes_unsigned_bytes_of_nat:
  "from_bytes_unsigned (bytes_of_nat k n) = int (n mod 256 ^ k)"
proof (induction k arbitrary: n)
  case 0
  then show ?case by (simp add: from_bytes_unsigned_def)
next
  case (Suc k)
  have "n mod (256 * 256 ^ k) = 256 * (n div 256 mod 256 ^ k) + n mod 256"
    by (rule mod_mult2_eq)
  with Suc.IH [of "n div 256"] show ?case
    by (simp add: from_bytes_unsigned_snoc)
qed

lemma length_bytes_of_nat: "length (bytes_of_nat k n) = k"
  by (induction k arbitrary: n) simp_all

lemma sint_256:
  fixes w :: "256 word"
  shows "sint w = (if 2 ^ 255 \<le> uint w then uint w - 2 ^ 256 else uint w)"
proof -
  have lt: "uint w < 2 ^ 256" using uint_bounded [of w] by simp
  have ge: "0 \<le> uint w" by simp
  have s: "sint w = (uint w + 2 ^ 255) mod 2 ^ 256 - 2 ^ 255"
    by (simp add: sint_uint signed_take_bit_eq_take_bit_shift take_bit_eq_mod)
  show ?thesis
  proof (cases "2 ^ 255 \<le> uint w")
    case True
    then have "(uint w + 2 ^ 255) mod 2 ^ 256 = uint w + 2 ^ 255 - 2 ^ 256"
      using lt by (intro int_mod_pos_eq [where q = 1]) simp_all
    with True s show ?thesis by simp
  next
    case False
    then have "(uint w + 2 ^ 255) mod 2 ^ 256 = uint w + 2 ^ 255"
      using ge by (intro mod_pos_pos_trivial) simp_all
    with False s show ?thesis by simp
  qed
qed

lemma from_bytes_signed_word:
  fixes w :: "256 word"
  shows "from_bytes_signed (bytes_of_nat 32 (unat w)) = sint w"
proof -
  have "unat w < 2 ^ 256" using unsigned_less [of w, where ?'a = nat] by simp
  then have "unat w mod 256 ^ 32 = unat w" by simp
  then have u: "from_bytes_unsigned (bytes_of_nat 32 (unat w)) = uint w"
    by (simp add: from_bytes_unsigned_bytes_of_nat)
  have ne: "bytes_of_nat 32 (unat w) \<noteq> []"
    using length_bytes_of_nat [of 32 "unat w"] by auto
  show ?thesis
    unfolding from_bytes_signed_def Let_def u length_bytes_of_nat sint_256
    using ne by simp
qed

lemma parse_amount_hex_word:
  "parse_amount (''0x'' @ hex_word a0 @ hex_word a1 @ rest) 2 66 = Inr \<bar>sint a0\<bar>"
  "parse_amount (''0x'' @ hex_word a0 @ hex_word a1 @ rest) 66 130 = Inr \<bar>sint a1\<bar>"
proof -
  have len: "length (hex_word a0) = 64" "length (hex_word a1) = 64"
    by (simp_all add: hex_word_def length_hex_of_nat)
  have dec: "fromhex (hex_word w) = Some (bytes_of_nat 32 (unat w))" for w
    using fromhex_hex_of_nat [of 32 "unat w"] by (simp add: hex_word_def)
  have s0: "slice (''0x'' @ hex_word a0 @ hex_word a1 @ rest) 2 66 = hex_word a0"
    by (simp add: slice_def len)
  have s1: "slice (''0x'' @ hex_word a0 @ hex_word a1 @ rest) 66 130 = hex_word a1"
    by (simp add: slice_def len)
  show "parse_amount (''0x'' @ hex_word a0 @ hex_word a1 @ rest) 2 66 = Inr \<bar>sint a0\<bar>"
    unfolding parse_amount_def s0 dec by (simp add: from_bytes_signed_word)
  show "parse_amount (''0x'' @ hex_word a0 @ hex_word a1 @ rest) 66 130 = Inr \<bar>sint a1\<bar>"
    unfolding parse_amount_def s1 dec by (simp add: from_bytes_signed_word)
qed

lemma hex_of_nat_numeral:
  "hex_of_nat (numeral k) n = hex_of_nat (pred_numeral k) (n div 16) @ [hexdigit (n mod 16)]"
  by (subst numeral_eq_Suc) simp

lemma hexdigit_table:
  "hexdigit 0 = CHR ''0''" "hexdigit 1 = CHR ''1''" "hexdigit 2 = CHR ''2''"
  "hexdigit 3 = CHR ''3''" "hexdigit 4 = CHR ''4''" "hexdigit 5 = CHR ''5''"
  "hexdigit 6 = CHR ''6''" "hexdigit 7 = CHR ''7''" "hexdigit 8 = CHR ''8''"
  "hexdigit 9 = CHR ''9''" "hexdigit 10 = CHR ''a''" "hexdigit 11 = CHR ''b''"
  "hexdigit 12 = CHR ''c''" "hexdigit 13 = CHR ''d''" "hexdigit 14 = CHR ''e''"
  "hexdigit 15 = CHR ''f''" "hexdigit (Suc 0) = CHR ''1''"
  by code_simp+

lemma unat_m1000: "unat (- 1000 :: 256 word) = 115792089237316195423570985008687907853269984665640564039457584007913129638936"
  by simp

lemma hex_500: "hex_word 500 = ''00000000000000000000000000000000000000000000000000000000000001f4''"
  by (simp add: hex_word_def hex_of_nat_numeral hexdigit_table)

lemma hex_m1000: "hex_word (- 1000) = ''fffffffffffffffffffffffffffffffffffffffffffffffffffffffffffffc18''"
  by (simp add: hex_word_def unat_m1000 hex_of_nat_numeral hexdigit_table)

lemma log_ex_encodes:
  "log_data log_ex = ''0x'' @ hex_word (- 1000) @ hex_word 500 @
     ''00000000000000000000000000000000000000010000000000000000000000000000000000000000000000000000000000000000000000000de0b6b3a7640000fffffffffffffffffffffffffffffffffffffffffffffffffffffffffffffc18''"
  by (simp add: log_ex_def hex_500 hex_m1000)

lemma lower_ex: "lower ''0xPool'' = ''0xpool''" "lower ''0xAAAA'' = ''0xaaaa''"
  "lower ''0xbbbb'' = ''0xbbbb''"
  by code_simp+

text \<open>
  C8. For every raw swap log whose data is \<open>0x\<close> followed by the 64 hexadecimal digits
  of a 256-bit word \<open>a0\<close>, those of a word \<open>a1\<close> and anything else, and whose pool, block
  number and log index are readable, the log parses to a swap whose amounts are the
  absolute values of \<open>a0\<close> and \<open>a1\<close> read as signed integers (two's complement,
  big-endian, characters 2 to 66 and 66 to 130 of the data), and whose ratio is the
  second amount over the first. A log that encodes \<open>-1000\<close> and \<open>500\<close> parses to the
  amounts 1000 and 500 and the ratio 1/2.
\<close>

theorem swap_amounts_are_absolute_values:
  assumes "log_data entry = ''0x'' @ hex_word a0 @ hex_word a1 @ rest"
    and "pool_tokens (log_address entry) = Some [t0, t1]"
    and "int16 (log_blockNumber entry) = Some bn"
    and "int16 (log_logIndex entry) = Some li"
  shows "\<exists>swap. parse_log pool_tokens entry = Inr swap \<and>
           swap = \<lparr>block_number = bn, transaction_hash = log_transactionHash entry,
                   log_index = li, address = lower (log_address entry),
                   from_token = lower t0, to_token = lower t1,
                   from_amount = \<bar>sint a0\<bar>, to_amount = \<bar>sint a1\<bar>\<rparr> \<and>
           ratio swap = (if sint a0 = 0 then Inl ZeroDivisionError
                         else Inr (of_int \<bar>sint a1\<bar> / of_int \<bar>sint a0\<bar>))"
proof -
  have a: "parse_amount (log_data entry) 2 66 = Inr \<bar>sint a0\<bar>"
    "parse_amount (log_data entry) 66 130 = Inr \<bar>sint a1\<bar>"
    unfolding assms(1) by (rule parse_amount_hex_word)+
  show ?thesis by (simp add: parse_log_def assms(2-4) a ratio_def)
qed

text \<open>
  The example log, of 322 characters, encodes \<open>-1000\<close> and \<open>500\<close>: it parses to the
  amounts 1000 and 500, and the ratio of the swap is 1/2.
\<close>

theorem swap_amounts_are_absolute_values_witness:
  "length (log_data log_ex) = 322 \<and>
   parse_log pool_tokens_ex log_ex =
     Inr \<lparr>block_number = 1000, transaction_hash = ''0xth'', log_index = 1,
          address = ''0xpool'', from_token = ''0xaaaa'', to_token = ''0xbbbb'',
          from_amount = 1000, to_amount = 500\<rparr> \<and>
   ratio \<lparr>block_number = 1000, transaction_hash = ''0xth'', log_index = 1,
          address = ''0xpool'', from_token = ''0xaaaa'', to_token = ''0xbbbb'',
          from_amount = 1000, to_amount = 500\<rparr> = Inr (1 / 2)"
proof -
  have len: "length (log_data log_ex) = 322" by (simp add: log_ex_def)
  have p: "pool_tokens_ex (log_address log_ex) = Some [''0xAAAA'', ''0xbbbb'']"
    by (simp add: pool_tokens_ex_def log_ex_def)
  have b: "int16 (log_blockNumber log_ex) = Some 1000"
    by (simp add: log_ex_def int16_def strip_def is_space_def hexval_def)
  have l: "int16 (log_logIndex log_ex) = Some 1"
    by (simp add: log_ex_def int16_def strip_def is_space_def hexval_def)
  have a: "sint (- 1000 :: 256 word) = - 1000" "sint (500 :: 256 word) = 500" by simp_all
  have f: "log_transactionHash log_ex = ''0xth''" "log_address log_ex = ''0xPool''"
    by (simp_all add: log_ex_def)
  from swap_amounts_are_absolute_values
    [where entry = log_ex and pool_tokens = pool_tokens_ex, OF log_ex_encodes p b l]
  have "parse_log pool_tokens_ex log_ex =
     Inr \<lparr>block_number = 1000, transaction_hash = ''0xth'', log_index = 1,
          address = ''0xpool'', from_token = ''0xaaaa'', to_token = ''0xbbbb'',
          from_amount = 1000, to_amount = 500\<rparr> \<and>
   ratio \<lparr>block_number = 1000, transaction_hash = ''0xth'', log_index = 1,
          address = ''0xpool'', from_token = ''0xaaaa'', to_token = ''0xbbbb'',
          from_amount = 1000, to_amount = 500\<rparr> = Inr (1 / 2)"
    by (simp add: a f lower_ex)
  with len show ?thesis by blast
qed

subsection \<open>The example node\<close>

lemma raw_logs_ex:
  "get_raw_swap_logs chain_ex 900 1100 = Some (Inr [log_ab], 1)"
  "get_raw_swap_logs chain_ex 1900 2100 = Some (Inr [log_ab, log_cd], 1)"
  by (simp_all add: get_raw_swap_logs_def chain_ex_def raw_swap_logs_loop.simps)

lemma fetch_pool_tokens_ex:
  "fetch_pool_tokens chain_ex ''0xPool1'' =
     Some (Inr [''0xAAAAaaaaaaaaaaaaaaaaaaaaaaaaaaaaaaaaaaaa'', token_b])"
  "fetch_pool_tokens chain_ex ''0xPool2'' = Some (Inr [token_c, token_d])"
  by (simp_all add: fetch_pool_tokens_def get_single_pool_token_async_def chain_ex_def
      pool_token_loop.simps slice_def token_b_def token_c_def token_d_def)

lemma get_pool_tokens_ex:
  "get_pool_tokens chain_ex world_ex ''0xPool1'' =
     Some (Inr [''0xAAAAaaaaaaaaaaaaaaaaaaaaaaaaaaaaaaaaaaaa'', token_b], world_1)"
  "get_pool_tokens chain_ex world_1 ''0xPool2'' = Some (Inr [token_c, token_d], world_2)"
  by (simp_all add: get_pool_tokens_def get_pool_pair_def world_ex_def world_1_def world_2_def
      fetch_pool_tokens_ex log_fetch_def store_pool_pair_def set_pool_pair_def
      token_b_def token_c_def token_d_def)

lemma parse_log_ex1:
  "parse_log [''0xPool1'' \<mapsto> [''0xAAAAaaaaaaaaaaaaaaaaaaaaaaaaaaaaaaaaaaaa'', token_b]] log_ab =
     Inr swap_ab"
  by code_simp

lemma parse_log_ex2:
  "parse_log [''0xPool2'' \<mapsto> [token_c, token_d],
              ''0xPool1'' \<mapsto> [''0xAAAAaaaaaaaaaaaaaaaaaaaaaaaaaaaaaaaaaaaa'', token_b]] log_ab = Inr swap_ab"
  "parse_log [''0xPool2'' \<mapsto> [token_c, token_d],
              ''0xPool1'' \<mapsto> [''0xAAAAaaaaaaaaaaaaaaaaaaaaaaaaaaaaaaaaaaaa'', token_b]] log_cd = Inr swap_cd"
  by code_simp+

lemma get_swaps_ex:
  "get_swaps rt_ex chain_ex world_ex 900 1100 = Some (Inr [swap_ab], world_1)"
  "get_swaps rt_ex chain_ex world_ex 1900 2100 = Some (Inr [swap_ab, swap_cd], world_2)"
proof -
  have p1: "iter_strs rt_ex [log_address log_ab] = [''0xPool1'']"
    by (simp add: rt_ex_def log_ab_def)
  have p2: "iter_strs rt_ex [log_address log_ab, log_address log_cd] = [''0xPool1'', ''0xPool2'']"
    by (simp add: rt_ex_def log_ab_def log_cd_def)
  show "get_swaps rt_ex chain_ex world_ex 900 1100 = Some (Inr [swap_ab], world_1)"
    by (simp add: get_swaps_def raw_logs_ex p1 get_pool_tokens_ex parse_log_ex1 parse_log_ex2 Let_def)
  show "get_swaps rt_ex chain_ex world_ex 1900 2100 = Some (Inr [swap_ab, swap_cd], world_2)"
    by (simp add: get_swaps_def raw_logs_ex p2 get_pool_tokens_ex parse_log_ex1 parse_log_ex2 Let_def)
qed

subsection \<open>The properties on the example node\<close>

lemma lower_tokens:
  "lower token_a = token_a" "lower token_b = token_b" "lower token_c = token_c"
  "lower token_d = token_d" "lower ''0xAAAAaaaaaaaaaaaaaaaaaaaaaaaaaaaaaaaaaaaa'' = token_a"
  by code_simp+

lemma tokens_distinct:
  "token_a \<noteq> token_b" "token_a \<noteq> token_c" "token_a \<noteq> token_d" "token_b \<noteq> token_c"
  "token_b \<noteq> token_d" "token_c \<noteq> token_d"
  by (simp_all add: token_a_def token_b_def token_c_def token_d_def)

lemma fetch_token_decimals_ex: "fetch_token_decimals chain_ex t = Some (Inr 18, 1)"
  by (simp add: fetch_token_decimals_def chain_ex_def token_decimals_loop.simps
      int16_def strip_def is_space_def hexval_def)

lemma decode_ex: "decode rt_ex [65, 66, 67] = Some ''ABC''"
  by code_simp

lemma fetch_token_symbol_ex: "fetch_token_symbol rt_ex chain_ex t = Some (Inr ''ABC'', 1)"
proof -
  have "fromhex (drop 2 ''0x414243'') = Some [65, 66, 67]"
    by (simp add: hexval_def is_ascii_space_def)
  then show ?thesis
    by (simp add: fetch_token_symbol_def chain_ex_def token_symbol_loop.simps decode_ex)
qed

lemma parse_symbol_ex: "parse_symbol ''ABC'' = ''ABC''"
  by code_simp

lemma get_token_decimals_miss:
  assumes "token_decimals_db w t = None" and "fetch_token_decimals ch t = Some (Inr d, k)"
  shows "get_token_decimals ch w t =
           Some (Inr d, set_cached_token_decimals (log_fetch w ''fetch_token_decimals'' t) t d)"
  using assms by (simp add: get_token_decimals_def get_cached_token_decimals_def)

lemma get_token_symbol_miss:
  assumes "token_symbols_db w t = None" and "fetch_token_symbol rt ch t = Some (Inr s, k)"
  shows "get_token_symbol rt ch w t =
           Some (Inr s, set_cached_token_symbol (log_fetch w ''fetch_token_symbol'' t) t s)"
  using assms by (simp add: get_token_symbol_def get_cached_token_symbol_def)

lemmas world_simps =
  set_cached_token_decimals_def set_cached_token_symbol_def log_fetch_def world_ex_def
  world_1_def world_2_def

lemma swap_tokens_ex:
  "swap_tokens [swap_ab] = {token_a, token_b}"
  "swap_tokens [swap_ab, swap_cd] = {token_a, token_b, token_c, token_d}"
  by (auto simp: swap_tokens_def swap_ab_def swap_cd_def)

text \<open>
  Token \<open>c\<close> is not traded in the first window: the conversion from \<open>c\<close> to \<open>b\<close> at block 1000 fails.
\<close>

theorem missing_token_fails_witness:
  "get_token_conversion_rate rt_ex chain_ex world_ex token_c token_b 1000 =
     Some (Inl (token0_not_found token_c), world_1)"
proof -
  have h: "get_swaps rt_ex chain_ex world_ex (1000 - 100) (1000 + 100) =
             Some (Inr [swap_ab], world_1)"
    by (simp add: get_swaps_ex)
  have m: "lower token_c \<notin> swap_tokens [swap_ab] \<or> lower token_b \<notin> swap_tokens [swap_ab]"
    using tokens_distinct by (simp add: lower_tokens swap_tokens_ex)
  from missing_token_fails [OF valid_rt_ex h m] tokens_distinct show ?thesis
    by (simp add: lower_tokens swap_tokens_ex)
qed

text \<open>
  In the second window \<open>a\<close> and \<open>c\<close> are traded in different pools with no token in common: the conversion from \<open>a\<close> to \<open>c\<close> at block 2000 finds no path.
\<close>

theorem disconnected_tokens_fail_witness:
  "get_token_conversion_rate rt_ex chain_ex world_ex token_a token_c 2000 =
     Some (Inl (no_swap_path token_a token_c), world_2)"
proof -
  have h: "get_swaps rt_ex chain_ex world_ex (2000 - 100) (2000 + 100) =
             Some (Inr [swap_ab, swap_cd], world_2)"
    by (simp add: get_swaps_ex)
  have a: "lower token_a \<in> swap_tokens [swap_ab, swap_cd]"
    and c: "lower token_c \<in> swap_tokens [swap_ab, swap_cd]"
    by (simp_all add: lower_tokens swap_tokens_ex)
  have n: "\<not> connected [swap_ab, swap_cd] (lower token_a) (lower token_c)"
  proof (rule not_connectedI [where S = "{token_a, token_b}"])
    show "lower token_a \<in> {token_a, token_b}" by (simp add: lower_tokens)
    show "lower token_c \<notin> {token_a, token_b}"
      using tokens_distinct by (simp add: lower_tokens)
    fix s assume "s \<in> set [swap_ab, swap_cd]"
    then show "from_token s \<in> {token_a, token_b} \<longleftrightarrow> to_token s \<in> {token_a, token_b}"
      using tokens_distinct by (auto simp: swap_ab_def swap_cd_def)
  qed
  from disconnected_tokens_fail [OF valid_rt_ex h a c n] show ?thesis
    by (simp add: lower_tokens)
qed


text \<open>
  The conversion from \<open>a\<close> to \<open>a\<close> at block 1000, run on the example node from an empty
  cache, with the target address given in mixed case: \<open>a\<close> is traded in the window.
\<close>

theorem same_token_no_path_witness:
  "get_token_conversion_rate rt_ex chain_ex world_ex token_a
     ''0xAAAAaaaaaaaaaaaaaaaaaaaaaaaaaaaaaaaaaaaa'' 1000 =
     Some (Inl (no_swap_path token_a token_a), world_1)"
proof -
  have h: "get_swaps rt_ex chain_ex world_ex (1000 - 100) (1000 + 100) =
             Some (Inr [swap_ab], world_1)"
    by (simp add: get_swaps_ex)
  have same: "lower ''0xAAAAaaaaaaaaaaaaaaaaaaaaaaaaaaaaaaaaaaaa'' = lower token_a"
    by (simp add: lower_tokens)
  from same_token_no_path [OF valid_rt_ex h same] show ?thesis
    by (simp add: lower_tokens swap_tokens_ex)
qed

text \<open>
  The conversion from \<open>b\<close> to \<open>b\<close> at block 1000 on the example node: \<open>b\<close> is a node of the
  swap graph, and the conversion raises the "No swap path found" exception instead of
  returning the rate 1 and the path \<open>[b]\<close>.
\<close>

theorem same_token_raises:
  "get_token_conversion_rate rt_ex chain_ex world_ex token_b token_b 1000 =
     Some (Inl (Exception
       (''No swap path found between token0 '' @ token_b @ '' and token1 '' @ token_b @
        '', unable to calculate conversion rate.'')), world_1)"
proof -
  have h: "get_swaps rt_ex chain_ex world_ex (1000 - 100) (1000 + 100) =
             Some (Inr [swap_ab], world_1)"
    by (simp add: get_swaps_ex)
  have "token_b \<in> swap_tokens [swap_ab]" by (simp add: swap_tokens_ex)
  from select_path_same [OF valid_rt_ex this]
  have "select_path rt_ex [swap_ab] (lower token_b) (lower token_b) =
          Inl (no_swap_path token_b token_b)"
    by (simp add: lower_tokens)
  from conversion_select_error [OF h this] show ?thesis by (simp add: no_swap_path_def)
qed

text \<open>
  The end-to-end scenario on the example node, from the raw log to the result, with the source address given in mixed case.
\<close>

theorem one_swap_conversion_witness:
  "map_option fst
     (get_token_conversion_rate rt_ex chain_ex world_ex
        ''0xAAAAaaaaaaaaaaaaaaaaaaaaaaaaaaaaaaaaaaaa'' token_b 1000) =
     Some (Inr \<lparr>conversion_rate = Double 2, token0_decimals = 18, token1_decimals = 18,
                token0_symbol = ''ABC'', token1_symbol = ''ABC'',
                token_pair_path = [token_a, token_b]\<rparr>)"
proof -
  let ?A = "''0xAAAAaaaaaaaaaaaaaaaaaaaaaaaaaaaaaaaaaaaa''"
  let ?w2 = "set_cached_token_decimals (log_fetch world_1 ''fetch_token_decimals'' token_a)
               token_a 18"
  let ?w3 = "set_cached_token_decimals (log_fetch ?w2 ''fetch_token_decimals'' token_b)
               token_b 18"
  let ?w4 = "set_cached_token_symbol (log_fetch ?w3 ''fetch_token_symbol'' token_a)
               token_a ''ABC''"
  let ?w5 = "set_cached_token_symbol (log_fetch ?w4 ''fetch_token_symbol'' token_b)
               token_b ''ABC''"
  have h: "get_swaps rt_ex chain_ex world_ex (1000 - 100) (1000 + 100) =
             Some (Inr [swap_ab], world_1)"
    by (simp add: get_swaps_ex)
  have f: "from_token swap_ab = lower ?A" and t: "to_token swap_ab = lower token_b"
    by (simp_all add: lower_tokens swap_ab_def)
  have ne: "lower ?A \<noteq> lower token_b"
    using tokens_distinct by (simp add: lower_tokens)
  have fa: "from_amount swap_ab = 1000" and ta: "to_amount swap_ab = 2000"
    by (simp_all add: swap_ab_def)
  have d0: "get_token_decimals chain_ex world_1 (lower ?A) = Some (Inr 18, ?w2)"
    unfolding lower_tokens
    by (rule get_token_decimals_miss [OF _ fetch_token_decimals_ex]) (simp add: world_simps)
  have d1: "get_token_decimals chain_ex ?w2 (lower token_b) = Some (Inr 18, ?w3)"
    unfolding lower_tokens
    by (rule get_token_decimals_miss [OF _ fetch_token_decimals_ex])
      (use tokens_distinct in \<open>simp add: world_simps\<close>)
  have s0: "get_token_symbol rt_ex chain_ex ?w3 (lower ?A) = Some (Inr ''ABC'', ?w4)"
    unfolding lower_tokens
    by (rule get_token_symbol_miss [OF _ fetch_token_symbol_ex]) (simp add: world_simps)
  have s1: "get_token_symbol rt_ex chain_ex ?w4 (lower token_b) = Some (Inr ''ABC'', ?w5)"
    unfolding lower_tokens
    by (rule get_token_symbol_miss [OF _ fetch_token_symbol_ex])
      (use tokens_distinct in \<open>simp add: world_simps\<close>)
  from one_swap_conversion [OF valid_rt_ex h f t ne fa ta d0 d1 s0 s1] show ?thesis
    by (simp add: lower_tokens parse_symbol_ex)
qed

text \<open>
  Pool 1 and token \<open>a\<close> resolved on the example node from an empty cache, then again against a node that would never answer.
\<close>

theorem second_resolution_is_cached_witness:
  "get_pool_tokens chain_reverting world_1 ''0xPool1'' =
     Some (Inr [''0xAAAAaaaaaaaaaaaaaaaaaaaaaaaaaaaaaaaaaaaa'', token_b], world_1) \<and>
   fetch_log world_1 = fetch_log world_ex @ [(''fetch_pool_tokens'', ''0xPool1'')] \<and>
   (\<exists>w2. get_token_decimals chain_ex world_ex token_a = Some (Inr 18, w2) \<and>
      get_token_decimals chain_reverting w2 token_a = Some (Inr 18, w2) \<and>
      fetch_log w2 = fetch_log world_ex @ [(''fetch_token_decimals'', token_a)]) \<and>
   (\<exists>w3. get_token_symbol rt_ex chain_ex world_ex token_a = Some (Inr ''ABC'', w3) \<and>
      get_token_symbol rt_ex chain_reverting w3 token_a = Some (Inr ''ABC'', w3) \<and>
      fetch_log w3 = fetch_log world_ex @ [(''fetch_token_symbol'', token_a)])"
proof -
  let ?w2 = "set_cached_token_decimals (log_fetch world_ex ''fetch_token_decimals'' token_a)
               token_a 18"
  let ?w3 = "set_cached_token_symbol (log_fetch world_ex ''fetch_token_symbol'' token_a)
               token_a ''ABC''"
  have p0: "pool_address_redis world_ex ''0xPool1'' = None" by (simp add: world_ex_def)
  have c: "\<forall>t\<in>set [''0xAAAAaaaaaaaaaaaaaaaaaaaaaaaaaaaaaaaaaaaa'', token_b]. CHR '','' \<notin> set t"
    by (simp add: token_b_def)
  have d0: "token_decimals_db world_ex token_a = None" by (simp add: world_ex_def)
  have d: "get_token_decimals chain_ex world_ex token_a = Some (Inr 18, ?w2)"
    by (rule get_token_decimals_miss [OF d0 fetch_token_decimals_ex])
  have s0: "token_symbols_db world_ex token_a = None" by (simp add: world_ex_def)
  have s: "get_token_symbol rt_ex chain_ex world_ex token_a = Some (Inr ''ABC'', ?w3)"
    by (rule get_token_symbol_miss [OF s0 fetch_token_symbol_ex])
  from second_resolution_is_cached [OF p0 get_pool_tokens_ex(1) c d0 d s0 s,
      of chain_reverting rt_ex] d s
  show ?thesis by blast
qed

text \<open>
  The two-hop example with a swap from \<open>a\<close> to \<open>b\<close> of ratio 2 and a swap from \<open>c\<close> to \<open>b\<close> of ratio 1/2: the second edge is walked against its swap and divides.
\<close>

theorem direction_aware_ratio_witness:
  "walk_path \<lparr>nodes = [0, 1, 2], edges = [(0, 1, swap_ab), (2, 1, swap_cb)]\<rparr>
     (token_id_map_inv [token_a, token_b, token_c]) [1, 2] 2 = Inr 4 \<and>
   (\<exists>path. select_path rt_ex [swap_ab, swap_cb] token_a token_c = Inr (4, path) \<and>
      path_tokens (token_id_map_inv (token_addresses rt_ex [swap_ab, swap_cb])) path =
        Inr [token_a, token_b, token_c])"
proof -
  let ?g = "\<lparr>nodes = [0, 1, 2], edges = [(0, 1, swap_ab), (2, 1, swap_cb)]\<rparr>"
  let ?tinv = "token_id_map_inv [token_a, token_b, token_c]"
  have e: "get_edge_data ?g 1 2 = Inr swap_cb" by (simp add: get_edge_data_def)
  have r: "ratio swap_cb = Inr (1 / 2)" by (simp add: ratio_def swap_cb_def)
  have tu: "?tinv 1 = Some token_b" and tv: "?tinv 2 = Some token_c"
    by (simp_all add: token_id_map_inv_eq)
  have s1: "from_token swap_ab = token_a" "to_token swap_ab = token_b"
    and s2: "from_token swap_cb = token_c" "to_token swap_cb = token_b"
    by (simp_all add: swap_ab_def swap_cb_def)
  have r1: "ratio swap_ab = Inr 2" by (simp add: ratio_def swap_ab_def)
  from direction_aware_ratio [OF e r tu tv valid_rt_ex s1 s2 tokens_distinct(1,2,4) r1 r,
      of "[]" 2]
  show ?thesis using tokens_distinct by (simp add: s2)
qed

end
